theory Spec2Isabelle
  imports Main "HOL-Library.Word"
begin

section \<open>Data model (package models)\<close>

text \<open>
  Byte strings and Go strings are both \<open>string\<close> (a list of 8-bit characters).
  A point in time is an integer count of nanoseconds since the Unix epoch; a
  \<open>time.Duration\<close> is a signed 64-bit count of nanoseconds, so its arithmetic wraps.
  The Go type \<open>int\<close> of the counters (\<open>Attempts\<close>, \<open>MaxRetries\<close>, ids) is modelled
  by \<open>int\<close>: the values come from 32-bit INTEGER columns and are only incremented by
  one in a 64-bit \<open>int\<close>, so they never wrap.
\<close>

type_synonym bytes = string
type_synonym time = int
type_synonym duration = "64 word"

abbreviation WebhookAuthTypeNone :: string where "WebhookAuthTypeNone \<equiv> ''none''"
abbreviation WebhookAuthTypeBasic :: string where "WebhookAuthTypeBasic \<equiv> ''basic''"
abbreviation WebhookAuthTypeHMAC :: string where "WebhookAuthTypeHMAC \<equiv> ''hmac''"

abbreviation WebhookStatusEnabled :: string where "WebhookStatusEnabled \<equiv> ''enabled''"
abbreviation WebhookStatusDisabled :: string where "WebhookStatusDisabled \<equiv> ''disabled''"

abbreviation WebhookLogStatusPending :: string where "WebhookLogStatusPending \<equiv> ''pending''"
abbreviation WebhookLogStatusSuccess :: string where "WebhookLogStatusSuccess \<equiv> ''success''"
abbreviation WebhookLogStatusFailed :: string where "WebhookLogStatusFailed \<equiv> ''failed''"

text \<open>\<open>models.Webhook\<close>; the fields carry a \<open>W\<close> prefix to keep them apart from the
  fields of the log record.\<close>

record Webhook =
  WID :: int
  WUUID :: string
  WName :: string
  WURL :: string
  WStatus :: string
  WEvents :: "string list"
  WAuthType :: string
  WAuthBasicUser :: string
  WAuthBasicPass :: string
  WAuthHMACSecret :: string
  WMaxRetries :: int
  WRetryInterval :: string
  WTimeout :: string
  WCreatedAt :: time
  WUpdatedAt :: time

text \<open>\<open>models.WebhookLog\<close>, one row of \<open>webhook_logs\<close>.\<close>

record WebhookLog =
  ID :: int
  WebhookID :: int
  Event :: string
  URL :: string
  Payload :: bytes
  Status :: string
  ResponseCode :: "int option"
  ResponseBody :: string
  Error :: string
  Attempts :: int
  NextRetryAt :: "time option"
  CreatedAt :: time
  UpdatedAt :: time

text \<open>\<open>pendingLog\<close> embeds \<open>models.WebhookLog\<close> and adds the joined endpoint policy.\<close>

record pendingLog = WebhookLog +
  MaxRetries :: int
  Timeout :: string
  AuthType :: string
  AuthBasicUser :: string
  AuthBasicPass :: string
  AuthHMACSecret :: string

text \<open>\<open>models.WebhookEvent\<close>; \<open>Data\<close> has Go type \<open>any\<close>.\<close>

record 'a WebhookEvent =
  EvEvent :: string
  EvTimestamp :: time
  EvData :: 'a

section \<open>Formatting helpers of the standard library\<close>

text \<open>\<open>fmt.Sprintf("%d", n)\<close>: the decimal digits of an integer.\<close>

definition digit_char :: "nat \<Rightarrow> char" where
  "digit_char d = (''0123456789'') ! (d mod 10)"

fun nat_decimal :: "nat \<Rightarrow> string" where
  "nat_decimal n = (if n < 10 then [digit_char n]
                    else nat_decimal (n div 10) @ [digit_char (n mod 10)])"

declare nat_decimal.simps [simp del]

definition decimal :: "int \<Rightarrow> string" where
  "decimal i = (if i < 0 then CHR ''-'' # nat_decimal (nat (- i)) else nat_decimal (nat i))"

text \<open>\<open>hex.EncodeToString\<close>: two lower-case hexadecimal digits per byte.\<close>

definition hex_digit :: "nat \<Rightarrow> char" where
  "hex_digit d = (''0123456789abcdef'') ! (d mod 16)"

definition hex_byte :: "char \<Rightarrow> string" where
  "hex_byte c = [hex_digit (of_char c div 16), hex_digit (of_char c mod 16)]"

definition EncodeToString :: "bytes \<Rightarrow> string" where
  "EncodeToString bs = concat (map hex_byte bs)"

section \<open>The delivery manager (package webhooks)\<close>

subsection \<open>Collaborators outside the repository\<close>

text \<open>
  An outgoing request: the method is always POST. \<open>Header.Set\<close> replaces the value
  stored under a key; every key used below is already in canonical form.
\<close>

record http_request =
  ReqURL :: string
  ReqBody :: bytes
  Header :: "string \<rightharpoonup> string"

text \<open>
  What \<open>client.Do\<close> gives back: a transport error with its text, or a response with
  its status code and the bytes its body yields.
\<close>

datatype http_result = TransportError string | Response int bytes

text \<open>
  Everything one delivery reads from outside the repository: the parsers and the
  HTTP client of the standard library, the keyed hash, the encoder of Basic
  credentials, and the two clock readings (one when signing, one when a retry is
  scheduled).
\<close>

record deliver_env =
  ParseDuration :: "string \<Rightarrow> duration option"
  NewRequestErr :: "string \<Rightarrow> string option"
  ClientDo :: "duration \<Rightarrow> http_request \<Rightarrow> http_result"
  HMAC_SHA256 :: "bytes \<Rightarrow> bytes \<Rightarrow> bytes"
  BasicCredentials :: "string \<Rightarrow> string \<Rightarrow> string"
  NowSign :: time
  NowRetry :: time

abbreviation Second :: duration where "Second \<equiv> 1000000000"
abbreviation Hour :: duration where "Hour \<equiv> 3600000000000"

text \<open>\<open>Time.Unix()\<close>: whole seconds since the epoch, rounded down.\<close>

definition Unix :: "time \<Rightarrow> int" where
  "Unix t = t div 1000000000"

subsection \<open>The parameters of the statement \<open>update-webhook-log\<close>\<close>

record update_args =
  u_id :: int
  u_status :: string
  u_response_code :: int
  u_response_body :: string
  u_error :: string
  u_attempts :: int
  u_next_retry_at :: "time option"

subsection \<open>computeHMAC\<close>

definition computeHMAC :: "(bytes \<Rightarrow> bytes \<Rightarrow> bytes) \<Rightarrow> bytes \<Rightarrow> string \<Rightarrow> int \<Rightarrow> string" where
  "computeHMAC mac payload secret timestamp =
     (let data = decimal timestamp @ ''.'' @ payload
      in ''sha256='' @ EncodeToString (mac secret data))"

subsection \<open>updateLogSuccess, updateLogFailed, handleDeliveryError\<close>

definition updateLogSuccess :: "pendingLog \<Rightarrow> int \<Rightarrow> string \<Rightarrow> update_args" where
  "updateLogSuccess l statusCode responseBody =
     \<lparr>u_id = ID l, u_status = WebhookLogStatusSuccess, u_response_code = statusCode,
      u_response_body = responseBody, u_error = '''', u_attempts = Attempts l + 1,
      u_next_retry_at = None\<rparr>"

definition updateLogFailed :: "pendingLog \<Rightarrow> int \<Rightarrow> string \<Rightarrow> string \<Rightarrow> update_args" where
  "updateLogFailed l statusCode responseBody errMsg =
     \<lparr>u_id = ID l, u_status = WebhookLogStatusFailed, u_response_code = statusCode,
      u_response_body = responseBody, u_error = errMsg, u_attempts = Attempts l + 1,
      u_next_retry_at = None\<rparr>"

text \<open>
  \<open>time.Duration(1<<uint(attempts)) * 30 * time.Second\<close>, capped at two hours.
  The shift and both products are 64-bit and wrap; \<open>uint(attempts)\<close> reinterprets
  the counter as unsigned, and a shift by 64 or more gives 0. The comparison with
  two hours is signed.
\<close>

definition backoff :: "int \<Rightarrow> duration" where
  "backoff attempts =
     (let n = nat (attempts mod 2 ^ 64);
          b = (if n \<ge> 64 then 0 else push_bit n (1 :: duration)) * 30 * Second
      in if 2 * Hour <s b then 2 * Hour else b)"

definition handleDeliveryError ::
  "deliver_env \<Rightarrow> pendingLog \<Rightarrow> int \<Rightarrow> string \<Rightarrow> string \<Rightarrow> update_args" where
  "handleDeliveryError env l statusCode responseBody errMsg =
     (let attempts = Attempts l + 1 in
      if attempts > MaxRetries l then updateLogFailed l statusCode responseBody errMsg
      else
        let nextRetry = NowRetry env + sint (backoff attempts) in
        \<lparr>u_id = ID l, u_status = WebhookLogStatusPending, u_response_code = statusCode,
         u_response_body = responseBody, u_error = errMsg, u_attempts = attempts,
         u_next_retry_at = Some nextRetry\<rparr>)"

subsection \<open>deliverWebhook\<close>

text \<open>
  The request as it stands when \<open>client.Do\<close> is called: the four fixed headers, then
  the authentication headers of the endpoint's mode.
\<close>

definition buildRequest :: "deliver_env \<Rightarrow> pendingLog \<Rightarrow> http_request" where
  "buildRequest env l =
     (let h0 = [''Content-Type'' \<mapsto> ''application/json'',
                ''User-Agent'' \<mapsto> ''listmonk-webhook/1.0'',
                ''X-Listmonk-Event'' \<mapsto> Event l,
                ''X-Listmonk-Delivery'' \<mapsto> decimal (ID l)];
          h1 = (if AuthType l = WebhookAuthTypeBasic then
                  h0(''Authorization'' \<mapsto>
                       ''Basic '' @ BasicCredentials env (AuthBasicUser l) (AuthBasicPass l))
                else if AuthType l = WebhookAuthTypeHMAC then
                  (let timestamp = Unix (NowSign env);
                       signature = computeHMAC (HMAC_SHA256 env) (Payload l) (AuthHMACSecret l) timestamp
                   in h0(''X-Listmonk-Signature'' \<mapsto> signature,
                         ''X-Listmonk-Timestamp'' \<mapsto> decimal timestamp))
                else h0)
      in \<lparr>ReqURL = URL l, ReqBody = Payload l, Header = h1\<rparr>)"

text \<open>
  One delivery attempt. The result is the request that went out (if one did) and the
  single update the attempt issues. The timeout is the endpoint's, or 30 seconds
  when that does not parse.
\<close>

definition request_timeout :: "deliver_env \<Rightarrow> pendingLog \<Rightarrow> duration" where
  "request_timeout env l =
     (case ParseDuration env (Timeout l) of None \<Rightarrow> 30 * Second | Some d \<Rightarrow> d)"

definition deliverWebhook :: "deliver_env \<Rightarrow> pendingLog \<Rightarrow> http_request option \<times> update_args" where
  "deliverWebhook env l =
     (let timeout = request_timeout env l in
      case NewRequestErr env (URL l) of
        Some err \<Rightarrow> (None, updateLogFailed l 0 '''' (''error creating request: '' @ err))
      | None \<Rightarrow>
          (let req = buildRequest env l in
           case ClientDo env timeout req of
             TransportError err \<Rightarrow>
               (Some req, handleDeliveryError env l 0 '''' (''request failed: '' @ err))
           | Response StatusCode respBody \<Rightarrow>
               (let bodyStr = take 1024 respBody in
                if StatusCode \<ge> 200 \<and> StatusCode < 300
                then (Some req, updateLogSuccess l StatusCode bodyStr)
                else (Some req, handleDeliveryError env l StatusCode bodyStr
                                  (''non-2xx status: '' @ decimal StatusCode)))))"

section \<open>The store (queries/webhooks.sql over the schema of migration v5.3.0)\<close>

text \<open>
  The two tables, each as the list of its rows, and the last values handed out by the
  two id sequences.
\<close>

record db =
  webhooks :: "Webhook list"
  webhook_logs :: "WebhookLog list"
  webhooks_id_seq :: int
  webhook_logs_id_seq :: int

text \<open>
  \<open>get-webhooks-by-event\<close>:
  \<open>WHERE status = 'enabled' AND $1 = ANY(events) ORDER BY created_at\<close>.
\<close>

definition subscribed :: "string \<Rightarrow> Webhook \<Rightarrow> bool" where
  "subscribed event w \<longleftrightarrow> WStatus w = WebhookStatusEnabled \<and> event \<in> set (WEvents w)"

definition get_webhooks_by_event :: "db \<Rightarrow> string \<Rightarrow> Webhook list" where
  "get_webhooks_by_event d event = sort_key WCreatedAt (filter (subscribed event) (webhooks d))"

text \<open>
  \<open>create-webhook-log\<close>: the six given columns; the others take the defaults of the
  table (\<open>response_code\<close> NULL, \<open>response_body\<close> and \<open>error\<close> empty, \<open>attempts\<close> 0,
  both timestamps \<open>NOW()\<close>), the id comes from the sequence. The foreign key on
  \<open>webhook_id\<close> rejects a row whose endpoint does not exist.
\<close>

definition create_webhook_log ::
  "db \<Rightarrow> time \<Rightarrow> int \<Rightarrow> string \<Rightarrow> string \<Rightarrow> bytes \<Rightarrow> string \<Rightarrow> time option \<Rightarrow> string + db" where
  "create_webhook_log d now webhook_id event url payload status next_retry_at =
     (if webhook_id \<notin> set (map WID (webhooks d))
      then Inl ''violates foreign key constraint''
      else
        let row = \<lparr>ID = webhook_logs_id_seq d + 1, WebhookID = webhook_id, Event = event,
                   URL = url, Payload = payload, Status = status, ResponseCode = None,
                   ResponseBody = '''', Error = '''', Attempts = 0,
                   NextRetryAt = next_retry_at, CreatedAt = now, UpdatedAt = now\<rparr>
        in Inr (d\<lparr>webhook_logs := webhook_logs d @ [row],
                   webhook_logs_id_seq := webhook_logs_id_seq d + 1\<rparr>))"

text \<open>\<open>update-webhook-log\<close>: sets six columns and \<open>updated_at\<close> on the row with the id.\<close>

definition apply_update :: "time \<Rightarrow> update_args \<Rightarrow> WebhookLog \<Rightarrow> WebhookLog" where
  "apply_update now u r =
     r\<lparr>Status := u_status u, ResponseCode := Some (u_response_code u),
       ResponseBody := u_response_body u, Error := u_error u, Attempts := u_attempts u,
       NextRetryAt := u_next_retry_at u, UpdatedAt := now\<rparr>"

definition update_webhook_log :: "db \<Rightarrow> time \<Rightarrow> update_args \<Rightarrow> db" where
  "update_webhook_log d now u =
     d\<lparr>webhook_logs := map (\<lambda>r. if ID r = u_id u then apply_update now u r else r) (webhook_logs d)\<rparr>"

text \<open>
  \<open>get-pending-webhook-logs\<close>: the join of each log row with its endpoint,
  \<open>WHERE l.status = 'pending' AND (l.next_retry_at IS NULL OR l.next_retry_at <= NOW())
  ORDER BY l.created_at LIMIT $1\<close>.
\<close>

definition join_log :: "WebhookLog \<Rightarrow> Webhook \<Rightarrow> pendingLog" where
  "join_log l w =
     \<lparr>ID = ID l, WebhookID = WebhookID l, Event = Event l, URL = URL l, Payload = Payload l,
      Status = Status l, ResponseCode = ResponseCode l, ResponseBody = ResponseBody l,
      Error = Error l, Attempts = Attempts l, NextRetryAt = NextRetryAt l,
      CreatedAt = CreatedAt l, UpdatedAt = UpdatedAt l,
      MaxRetries = WMaxRetries w, Timeout = WTimeout w, AuthType = WAuthType w,
      AuthBasicUser = WAuthBasicUser w, AuthBasicPass = WAuthBasicPass w,
      AuthHMACSecret = WAuthHMACSecret w\<rparr>"

definition due :: "time \<Rightarrow> pendingLog \<Rightarrow> bool" where
  "due now l \<longleftrightarrow> Status l = WebhookLogStatusPending \<and>
     (case NextRetryAt l of None \<Rightarrow> True | Some t \<Rightarrow> t \<le> now)"

definition get_pending_webhook_logs :: "db \<Rightarrow> time \<Rightarrow> nat \<Rightarrow> pendingLog list" where
  "get_pending_webhook_logs d now limit =
     take limit (sort_key CreatedAt (filter (due now)
       (concat (map (\<lambda>l. map (join_log l) (filter (\<lambda>w. WID w = WebhookID l) (webhooks d)))
                    (webhook_logs d)))))"

subsection \<open>Trigger\<close>

text \<open>
  What one call of \<open>Trigger\<close> reads from outside: whether the select fails, the clock,
  the JSON encoder, whether the k-th insert fails (counted from 0), and the time of
  the store.
\<close>

record 'a trigger_env =
  SelectErr :: "string option"
  NowUTC :: time
  Marshal :: "'a WebhookEvent \<Rightarrow> string + bytes"
  InsertErr :: "nat \<Rightarrow> string option"
  NowDB :: time

text \<open>\<open>CreateWebhookLog.Exec\<close>: fails with the given error, or runs the statement.\<close>

definition exec_create_webhook_log ::
  "string option \<Rightarrow> db \<Rightarrow> time \<Rightarrow> int \<Rightarrow> string \<Rightarrow> string \<Rightarrow> bytes \<Rightarrow> string \<Rightarrow> time option \<Rightarrow> string + db" where
  "exec_create_webhook_log fault d now webhook_id event url payload status next_retry_at =
     (case fault of Some err \<Rightarrow> Inl err
      | None \<Rightarrow> create_webhook_log d now webhook_id event url payload status next_retry_at)"

text \<open>The loop over the endpoints: an insert that fails is logged and skipped.\<close>

fun create_logs :: "'a trigger_env \<Rightarrow> string \<Rightarrow> bytes \<Rightarrow> nat \<Rightarrow> Webhook list \<Rightarrow> db \<Rightarrow> db" where
  "create_logs env event payloadBytes k [] d = d"
| "create_logs env event payloadBytes k (wh # whs) d =
     (case exec_create_webhook_log (InsertErr env k) d (NowDB env) (WID wh) event (WURL wh)
             payloadBytes WebhookLogStatusPending None of
        Inl err \<Rightarrow> create_logs env event payloadBytes (Suc k) whs d
      | Inr d' \<Rightarrow> create_logs env event payloadBytes (Suc k) whs d')"

text \<open>The result is the Go error (\<open>None\<close> for nil) and the store after the call.\<close>

definition Trigger :: "'a trigger_env \<Rightarrow> db \<Rightarrow> string \<Rightarrow> 'a \<Rightarrow> string option \<times> db" where
  "Trigger env d event data =
     (case SelectErr env of
        Some err \<Rightarrow> (Some err, d)
      | None \<Rightarrow>
          (let whs = get_webhooks_by_event d event in
           if length whs = 0 then (None, d)
           else
             let payload = \<lparr>EvEvent = event, EvTimestamp = NowUTC env, EvData = data\<rparr> in
             case Marshal env payload of
               Inl err \<Rightarrow> (Some err, d)
             | Inr payloadBytes \<Rightarrow> (None, create_logs env event payloadBytes 0 whs d)))"

text \<open>The log rows a call added: those beyond the rows that were there before.\<close>

definition new_rows :: "db \<Rightarrow> db \<Rightarrow> WebhookLog list" where
  "new_rows d d' = drop (length (webhook_logs d)) (webhook_logs d')"

subsection \<open>processPendingLogs\<close>

text \<open>
  \<open>UpdateWebhookLog.Exec\<close> fails (the error is logged, the store is unchanged) or
  runs the statement. A batch is delivered row by row, in order; the k-th delivery
  has its own readings of the outside world, whether its update fails, and the time
  of the store. The result is the store and the updates issued, in order.
\<close>

definition exec_update_webhook_log :: "string option \<Rightarrow> db \<Rightarrow> time \<Rightarrow> update_args \<Rightarrow> db" where
  "exec_update_webhook_log fault d now u =
     (case fault of Some err \<Rightarrow> d | None \<Rightarrow> update_webhook_log d now u)"

record batch_env =
  FetchErr :: "string option"
  NowFetch :: time
  DeliverEnv :: "nat \<Rightarrow> deliver_env"
  UpdateErr :: "nat \<Rightarrow> string option"
  NowUpdate :: "nat \<Rightarrow> time"

fun deliver_batch :: "batch_env \<Rightarrow> nat \<Rightarrow> pendingLog list \<Rightarrow> db \<Rightarrow> db \<times> update_args list" where
  "deliver_batch env k [] d = (d, [])"
| "deliver_batch env k (l # ls) d =
     (let u = snd (deliverWebhook (DeliverEnv env k) l);
          d' = exec_update_webhook_log (UpdateErr env k) d (NowUpdate env k) u;
          (d'', us) = deliver_batch env (Suc k) ls d'
      in (d'', u # us))"

definition processPendingLogs :: "batch_env \<Rightarrow> db \<Rightarrow> db \<times> update_args list" where
  "processPendingLogs env d =
     (case FetchErr env of
        Some err \<Rightarrow> (d, [])
      | None \<Rightarrow> deliver_batch env 0 (get_pending_webhook_logs d (NowFetch env) 100) d)"

section \<open>Administration of endpoints (package core)\<close>

text \<open>\<open>models.AllWebhookEvents\<close>.\<close>

definition AllWebhookEvents :: "string list" where
  "AllWebhookEvents =
     [''subscriber.created'', ''subscriber.updated'', ''subscriber.deleted'',
      ''subscriber.optin_start'', ''subscriber.optin_finish'',
      ''subscriber.added_to_list'', ''subscriber.removed_from_list'',
      ''subscriber.unsubscribed'', ''subscriber.bounced'',
      ''campaign.started'', ''campaign.paused'', ''campaign.cancelled'',
      ''campaign.finished'']"

text \<open>
  Modelled from the spec: the helper \<open>strHasLen\<close> of package core is not among the
  sources; the spec gives the admitted lengths as ranges with both ends included
  (a name of 1..200, a URL of 1..2000).
\<close>

definition strHasLen :: "string \<Rightarrow> nat \<Rightarrow> nat \<Rightarrow> bool" where
  "strHasLen str mn mx \<longleftrightarrow> mn \<le> length str \<and> length str \<le> mx"

text \<open>\<open>echo.NewHTTPError\<close>: the status code, the message key and its argument.\<close>

datatype http_error = HTTPError int string string

text \<open>
  What one call reads from outside: whether each of its statements fails, the UUID
  and the time the store gives a new row.
\<close>

record core_env =
  CoreSelectErr :: "string option"
  CoreInsertErr :: "string option"
  CoreUpdateErr :: "string option"
  GenUUID :: string
  CoreNow :: time

text \<open>The enum type \<open>webhook_status\<close> of the column \<open>status\<close>.\<close>

definition webhook_status_ok :: "string \<Rightarrow> bool" where
  "webhook_status_ok s \<longleftrightarrow> s = WebhookStatusEnabled \<or> s = WebhookStatusDisabled"

text \<open>\<open>get-webhooks\<close>: \<open>WHERE ($1 = 0 OR id = $1) ORDER BY created_at DESC\<close>.\<close>

definition get_webhooks :: "db \<Rightarrow> int \<Rightarrow> Webhook list" where
  "get_webhooks d i = rev (sort_key WCreatedAt (filter (\<lambda>w. i = 0 \<or> WID w = i) (webhooks d)))"

text \<open>
  \<open>create-webhook\<close>: the eleven given columns, the id from the sequence, a generated
  UUID and both timestamps \<open>NOW()\<close>; returns the new id.
\<close>

definition create_webhook :: "core_env \<Rightarrow> db \<Rightarrow> Webhook \<Rightarrow> string + (db \<times> int)" where
  "create_webhook env d w =
     (case CoreInsertErr env of
        Some err \<Rightarrow> Inl err
      | None \<Rightarrow>
          if \<not> webhook_status_ok (WStatus w) then Inl ''invalid input value for enum webhook_status''
          else
            let i = webhooks_id_seq d + 1;
                row = w\<lparr>WID := i, WUUID := GenUUID env, WCreatedAt := CoreNow env,
                        WUpdatedAt := CoreNow env\<rparr>
            in Inr (d\<lparr>webhooks := webhooks d @ [row], webhooks_id_seq := i\<rparr>, i))"

text \<open>
  \<open>update-webhook\<close>: sets the columns of the row with the id; an empty password or
  secret keeps the stored one. Returns the number of rows affected.
\<close>

definition update_row :: "time \<Rightarrow> Webhook \<Rightarrow> Webhook \<Rightarrow> Webhook" where
  "update_row now w r =
     r\<lparr>WName := WName w, WURL := WURL w, WStatus := WStatus w, WEvents := WEvents w,
       WAuthType := WAuthType w, WAuthBasicUser := WAuthBasicUser w,
       WAuthBasicPass := (if WAuthBasicPass w = '''' then WAuthBasicPass r else WAuthBasicPass w),
       WAuthHMACSecret := (if WAuthHMACSecret w = '''' then WAuthHMACSecret r else WAuthHMACSecret w),
       WMaxRetries := WMaxRetries w, WRetryInterval := WRetryInterval w,
       WTimeout := WTimeout w, WUpdatedAt := now\<rparr>"

definition update_webhook :: "core_env \<Rightarrow> db \<Rightarrow> int \<Rightarrow> Webhook \<Rightarrow> string + (db \<times> nat)" where
  "update_webhook env d i w =
     (case CoreUpdateErr env of
        Some err \<Rightarrow> Inl err
      | None \<Rightarrow>
          if \<not> webhook_status_ok (WStatus w) then Inl ''invalid input value for enum webhook_status''
          else Inr (d\<lparr>webhooks := map (\<lambda>r. if WID r = i then update_row (CoreNow env) w r else r)
                                      (webhooks d)\<rparr>,
                    length (filter (\<lambda>r. WID r = i) (webhooks d))))"

subsection \<open>GetWebhooks, GetWebhook\<close>

text \<open>\<open>strings.Repeat("\<bullet>", 8)\<close>: eight bullets, three bytes each in UTF-8.\<close>

definition secret_mask :: string where
  "secret_mask = concat (replicate 8 [char_of (226::nat), char_of (128::nat), char_of (162::nat)])"

definition mask_secrets :: "Webhook \<Rightarrow> Webhook" where
  "mask_secrets w =
     (let w1 = (if WAuthBasicPass w \<noteq> '''' then w\<lparr>WAuthBasicPass := secret_mask\<rparr> else w)
      in if WAuthHMACSecret w1 \<noteq> '''' then w1\<lparr>WAuthHMACSecret := secret_mask\<rparr> else w1)"

definition GetWebhooks :: "core_env \<Rightarrow> db \<Rightarrow> int \<Rightarrow> http_error + Webhook list" where
  "GetWebhooks env d i =
     (case CoreSelectErr env of
        Some err \<Rightarrow> Inl (HTTPError 500 ''globals.messages.errorFetching'' err)
      | None \<Rightarrow> Inr (map mask_secrets (get_webhooks d i)))"

definition GetWebhook :: "core_env \<Rightarrow> db \<Rightarrow> int \<Rightarrow> http_error + Webhook" where
  "GetWebhook env d i =
     (case GetWebhooks env d i of
        Inl err \<Rightarrow> Inl err
      | Inr out \<Rightarrow>
          (case out of
             [] \<Rightarrow> Inl (HTTPError 400 ''globals.messages.notFound'' ''{globals.terms.webhook}'')
           | w # _ \<Rightarrow> Inr w))"

subsection \<open>CreateWebhook, UpdateWebhook\<close>

text \<open>
  Both functions open with the same three blocks, written here once each: the
  checks of the fields (the first that fails gives the error), and the coercion of
  an unknown authentication mode to \<open>none\<close>. \<open>CreateWebhook\<close> then sets its
  defaults, one field after the other; \<open>UpdateWebhook\<close> has no such block.
\<close>

definition check_fields :: "Webhook \<Rightarrow> http_error option" where
  "check_fields w =
     (if \<not> strHasLen (WName w) 1 200
        then Some (HTTPError 400 ''globals.messages.invalidFields'' ''name'')
      else if \<not> strHasLen (WURL w) 1 2000
        then Some (HTTPError 400 ''globals.messages.invalidFields'' ''url'')
      else if length (WEvents w) = 0
        then Some (HTTPError 400 ''globals.messages.invalidFields'' ''events'')
      else if \<not> list_all (\<lambda>e. e \<in> set AllWebhookEvents) (WEvents w)
        then Some (HTTPError 400 ''globals.messages.invalidFields'' ''events'')
      else None)"

definition check_auth_type :: "Webhook \<Rightarrow> Webhook" where
  "check_auth_type w =
     (if WAuthType w \<noteq> WebhookAuthTypeNone \<and> WAuthType w \<noteq> WebhookAuthTypeBasic
         \<and> WAuthType w \<noteq> WebhookAuthTypeHMAC
      then w\<lparr>WAuthType := WebhookAuthTypeNone\<rparr> else w)"

definition set_defaults :: "Webhook \<Rightarrow> Webhook" where
  "set_defaults w =
     w\<lparr>WStatus := (if WStatus w = '''' then WebhookStatusEnabled else WStatus w),
       WMaxRetries := (if WMaxRetries w \<le> 0 then 3 else WMaxRetries w),
       WRetryInterval := (if WRetryInterval w = '''' then ''30s'' else WRetryInterval w),
       WTimeout := (if WTimeout w = '''' then ''30s'' else WTimeout w)\<rparr>"

text \<open>The result is what the call returns and the store after the call.\<close>

definition CreateWebhook :: "core_env \<Rightarrow> db \<Rightarrow> Webhook \<Rightarrow> (http_error + Webhook) \<times> db" where
  "CreateWebhook env d w =
     (case check_fields w of
        Some err \<Rightarrow> (Inl err, d)
      | None \<Rightarrow>
          (case create_webhook env d (set_defaults (check_auth_type w)) of
             Inl err \<Rightarrow> (Inl (HTTPError 500 ''globals.messages.errorCreating'' err), d)
           | Inr (d', i) \<Rightarrow> (GetWebhook env d' i, d')))"

definition UpdateWebhook :: "core_env \<Rightarrow> db \<Rightarrow> int \<Rightarrow> Webhook \<Rightarrow> (http_error + Webhook) \<times> db" where
  "UpdateWebhook env d i w =
     (case check_fields w of
        Some err \<Rightarrow> (Inl err, d)
      | None \<Rightarrow>
          (case update_webhook env d i (check_auth_type w) of
             Inl err \<Rightarrow> (Inl (HTTPError 500 ''globals.messages.errorUpdating'' err), d)
           | Inr (d', n) \<Rightarrow>
               if n = 0
               then (Inl (HTTPError 400 ''globals.messages.notFound'' ''{globals.terms.webhook}''), d')
               else (GetWebhook env d' i, d')))"

section \<open>The worker pool\<close>

subsection \<open>Run, Close and the loop of one worker\<close>

text \<open>
  Of the manager, the flag \<open>isRunning\<close> and whether \<open>stopCh\<close> has been closed.
  \<open>Run\<close> starts the workers unless they run already; \<open>Close\<close> closes \<open>stopCh\<close>
  (and then waits for the workers) unless the manager is not running.
\<close>

record Manager =
  isRunning :: bool
  stopCh_closed :: bool

definition Run :: "Manager \<Rightarrow> Manager" where
  "Run m = (if isRunning m then m else m\<lparr>isRunning := True\<rparr>)"

definition Close :: "Manager \<Rightarrow> Manager" where
  "Close m = (if \<not> isRunning m then m else m\<lparr>isRunning := False, stopCh_closed := True\<rparr>)"

text \<open>
  One pass of a worker through its \<open>select\<close>: which of the two channels can be
  received from when the statement runs, which case the runtime takes when both can
  (Go chooses among the ready cases at random), and what the call of
  \<open>processPendingLogs\<close> reads if the tick case is taken. With neither channel ready
  the worker stays blocked.
\<close>

datatype select_case = CaseStop | CaseTick

record select_obs =
  StopClosed :: bool
  TickReady :: bool
  RuntimeChoice :: select_case
  TickEnv :: batch_env

datatype worker_event = Fetch | Return

text \<open>
  The loop of \<open>worker\<close> over the passes it gets to make: the store after them, and
  the calls of \<open>processPendingLogs\<close> (each starts with one fetch of pending rows)
  and the return, in order.
\<close>

fun worker :: "select_obs list \<Rightarrow> db \<Rightarrow> db \<times> worker_event list" where
  "worker [] d = (d, [])"
| "worker (ob # obs) d =
     (if StopClosed ob \<and> (\<not> TickReady ob \<or> RuntimeChoice ob = CaseStop) then (d, [Return])
      else if TickReady ob then
        (let d' = fst (processPendingLogs (TickEnv ob) d);
             (d'', evs) = worker obs d'
         in (d'', Fetch # evs))
      else worker obs d)"

subsection \<open>Several workers over one store\<close>

text \<open>
  \<open>Run\<close> starts several workers on the same store. Each holds the batch it fetched
  and has not yet delivered; the statements of different workers interleave. A step
  is one worker's fetch (only when its previous batch is done) or its delivery of the
  next row of its batch, with the update that delivery issues.
\<close>

record pool =
  Store :: db
  Batch :: "nat \<Rightarrow> pendingLog list"

datatype pool_step =
    StepFetch nat time
  | StepDeliver nat deliver_env "string option" time

fun do_step :: "pool_step \<Rightarrow> pool \<Rightarrow> pool" where
  "do_step (StepFetch w now) s =
     (if Batch s w = [] then s\<lparr>Batch := (Batch s)(w := get_pending_webhook_logs (Store s) now 100)\<rparr>
      else s)"
| "do_step (StepDeliver w env fault now) s =
     (case Batch s w of
        [] \<Rightarrow> s
      | l # ls \<Rightarrow>
          s\<lparr>Store := exec_update_webhook_log fault (Store s) now (snd (deliverWebhook env l)),
            Batch := (Batch s)(w := ls)\<rparr>)"

fun pool_run :: "pool_step list \<Rightarrow> pool \<Rightarrow> pool" where
  "pool_run [] s = s"
| "pool_run (st # sts) s = pool_run sts (do_step st s)"

text \<open>The stored attempts of the row with a given id (0 if there is no such row).\<close>

definition attempts_of :: "db \<Rightarrow> int \<Rightarrow> int" where
  "attempts_of d i = (case filter (\<lambda>r. ID r = i) (webhook_logs d) of [] \<Rightarrow> 0 | r # _ \<Rightarrow> Attempts r)"

section \<open>Example inputs\<close>

text \<open>
  An endpoint in hmac mode with secret \<open>k\<close> and three retries, one fresh log row for
  it, and readings of the outside world: the receiver answers 204 with an empty
  body; the keyed hash is a stand-in that concatenates key and message.
\<close>

definition ex_webhook :: Webhook where
  "ex_webhook =
     \<lparr>WID = 1, WUUID = ''u-1'', WName = ''receiver'', WURL = ''http://r/ok'',
      WStatus = WebhookStatusEnabled, WEvents = [''subscriber.created''],
      WAuthType = WebhookAuthTypeHMAC, WAuthBasicUser = '''', WAuthBasicPass = '''',
      WAuthHMACSecret = ''k'', WMaxRetries = 3, WRetryInterval = ''30s'', WTimeout = ''30s'',
      WCreatedAt = 0, WUpdatedAt = 0\<rparr>"

definition ex_row :: WebhookLog where
  "ex_row =
     \<lparr>ID = 7, WebhookID = 1, Event = ''subscriber.created'', URL = ''http://r/ok'',
      Payload = ''{}'', Status = WebhookLogStatusPending, ResponseCode = None,
      ResponseBody = '''', Error = '''', Attempts = 0, NextRetryAt = None,
      CreatedAt = 5, UpdatedAt = 5\<rparr>"

definition ex_log :: pendingLog where
  "ex_log = join_log ex_row ex_webhook"

definition ex_env :: "int \<Rightarrow> deliver_env" where
  "ex_env code =
     \<lparr>ParseDuration = (\<lambda>s. if s = ''30s'' then Some (30 * Second) else None),
      NewRequestErr = (\<lambda>u. if u = '''' then Some ''empty url'' else None),
      ClientDo = (\<lambda>t r. Response code ''''),
      HMAC_SHA256 = (\<lambda>k m. k @ m),
      BasicCredentials = (\<lambda>u p. u @ '':'' @ p),
      NowSign = 1700000000123456789,
      NowRetry = 1700000001000000000\<rparr>"

definition ex_db :: db where
  "ex_db = \<lparr>webhooks = [ex_webhook], webhook_logs = [ex_row],
            webhooks_id_seq = 1, webhook_logs_id_seq = 7\<rparr>"

text \<open>
  The same row after 28 failed attempts, for an endpoint that allows 29 retries.
\<close>

definition late_log :: pendingLog where
  "late_log = ex_log\<lparr>Attempts := 28, MaxRetries := 29\<rparr>"

text \<open>
  A store with four log rows of the endpoint: one delivered, one pending and never
  tried, one pending with a retry time that has passed at time 10, and one pending
  with a retry time still ahead.
\<close>

definition queue_db :: db where
  "queue_db =
     \<lparr>webhooks = [ex_webhook],
      webhook_logs =
        [ex_row\<lparr>ID := 1, CreatedAt := 3, Status := WebhookLogStatusSuccess, Attempts := 1\<rparr>,
         ex_row\<lparr>ID := 2, CreatedAt := 9\<rparr>,
         ex_row\<lparr>ID := 3, CreatedAt := 4, Attempts := 1, NextRetryAt := Some 8\<rparr>,
         ex_row\<lparr>ID := 4, CreatedAt := 5, Attempts := 1, NextRetryAt := Some 11\<rparr>],
      webhooks_id_seq = 1, webhook_logs_id_seq = 4\<rparr>"

definition ex_batch_env :: batch_env where
  "ex_batch_env =
     \<lparr>FetchErr = None, NowFetch = 10, DeliverEnv = (\<lambda>k. ex_env 204),
      UpdateErr = (\<lambda>k. None), NowUpdate = (\<lambda>k. 10)\<rparr>"

text \<open>
  A store with three endpoints and no log rows: two enabled endpoints subscribed to
  \<open>subscriber.created\<close> and a disabled one. In \<open>trig_env\<close> the first insert of a
  call fails and the later ones succeed; the encoder is a stand-in that returns the
  event name. In \<open>bad_json_env\<close> the encoder fails.
\<close>

definition fanout_db :: db where
  "fanout_db =
     \<lparr>webhooks =
        [ex_webhook,
         ex_webhook\<lparr>WID := 2, WURL := ''http://s/in'', WCreatedAt := 1\<rparr>,
         ex_webhook\<lparr>WID := 3, WURL := ''http://t/off'', WStatus := WebhookStatusDisabled,
                    WCreatedAt := 2\<rparr>],
      webhook_logs = [], webhooks_id_seq = 3, webhook_logs_id_seq = 0\<rparr>"

definition trig_env :: "unit trigger_env" where
  "trig_env =
     \<lparr>SelectErr = None, NowUTC = 1700000000000000000, Marshal = (\<lambda>p. Inr (EvEvent p)),
      InsertErr = (\<lambda>k. if k = 0 then Some ''connection reset'' else None),
      NowDB = 1700000000000000500\<rparr>"

definition bad_json_env :: "unit trigger_env" where
  "bad_json_env = trig_env\<lparr>Marshal := (\<lambda>p. Inl ''json: unsupported type'')\<rparr>"

text \<open>
  A pass through the \<open>select\<close> after \<open>Close\<close>, with a tick waiting as well: once with
  the runtime taking the tick case, once with it taking the stop case.
\<close>

definition tick_wins :: select_obs where
  "tick_wins = \<lparr>StopClosed = True, TickReady = True, RuntimeChoice = CaseTick,
                TickEnv = ex_batch_env\<rparr>"

definition stop_wins :: select_obs where
  "stop_wins = \<lparr>StopClosed = True, TickReady = True, RuntimeChoice = CaseStop,
                TickEnv = ex_batch_env\<rparr>"

text \<open>
  Two workers that fetch the one pending row of \<open>ex_db\<close> on the same tick and both
  get status 500; and a run in which worker 0 still holds its copy while worker 1
  delivers the row twice.
\<close>

definition both_fetch :: "pool_step list" where
  "both_fetch = [StepFetch 0 10, StepFetch 1 10, StepDeliver 0 (ex_env 500) None 20]"

definition second_delivery :: pool_step where
  "second_delivery = StepDeliver 1 (ex_env 500) None 21"

definition overtaken :: "pool_step list" where
  "overtaken =
     [StepFetch 0 10, StepFetch 1 10,
      StepDeliver 1 (ex_env 500) None 20,
      StepFetch 1 1700000100000000000,
      StepDeliver 1 (ex_env 500) None 1700000100000000001]"

definition late_delivery :: pool_step where
  "late_delivery = StepDeliver 0 (ex_env 500) None 1700000100000000002"

text \<open>
  A call of the administration in which no statement fails, and an endpoint as a
  client submits it with \<open>max_retries\<close> 0.
\<close>

definition ex_core_env :: core_env where
  "ex_core_env =
     \<lparr>CoreSelectErr = None, CoreInsertErr = None, CoreUpdateErr = None,
      GenUUID = ''u-new'', CoreNow = 100\<rparr>"

definition no_retry_hook :: Webhook where
  "no_retry_hook = ex_webhook\<lparr>WID := 0, WUUID := '''', WMaxRetries := 0\<rparr>"

section \<open>Auxiliary notions for the statements\<close>

text \<open>
  Of a list of endpoints handled in order from position \<open>k\<close> on, those at whose
  position the insert does not fail.
\<close>

fun accepted :: "(nat \<Rightarrow> string option) \<Rightarrow> nat \<Rightarrow> 'a list \<Rightarrow> 'a list" where
  "accepted f k [] = []"
| "accepted f k (x # xs) = (if f k = None then x # accepted f (Suc k) xs else accepted f (Suc k) xs)"

text \<open>
  A store as \<open>Trigger\<close> leaves it: ids are unique, no endpoint has a negative number
  of retries, and every log row is pending with no attempt made. A pool over it
  whose workers hold nothing yet.
\<close>

definition fresh_store :: "db \<Rightarrow> bool" where
  "fresh_store d \<longleftrightarrow>
     distinct (map WID (webhooks d)) \<and> distinct (map ID (webhook_logs d))
     \<and> list_all (\<lambda>w. 0 \<le> WMaxRetries w) (webhooks d)
     \<and> list_all (\<lambda>r. Attempts r = 0 \<and> Status r = WebhookLogStatusPending) (webhook_logs d)"

definition idle_pool :: "db \<Rightarrow> pool" where
  "idle_pool d = \<lparr>Store = d, Batch = (\<lambda>w. [])\<rparr>"

text \<open>
  What holds of every pool reachable from such a store: ids stay unique; every row
  has made at most one attempt more than its endpoint allows retries, and a pending
  row at most as many attempts as retries; every copy a worker holds has made at
  most as many attempts as the retries it carries, which are those of the endpoint
  of the row with its id.
\<close>

definition row_ok :: "Webhook \<Rightarrow> WebhookLog \<Rightarrow> bool" where
  "row_ok w r \<longleftrightarrow> 0 \<le> Attempts r \<and> Attempts r \<le> WMaxRetries w + 1
                \<and> (Status r = WebhookLogStatusPending \<longrightarrow> Attempts r \<le> WMaxRetries w)"

definition copy_ok :: "db \<Rightarrow> pendingLog \<Rightarrow> bool" where
  "copy_ok d l \<longleftrightarrow> 0 \<le> Attempts l \<and> Attempts l \<le> MaxRetries l
     \<and> (\<forall>r \<in> set (webhook_logs d). ID r = ID l \<longrightarrow>
           (\<forall>w \<in> set (webhooks d). WID w = WebhookID r \<longrightarrow> WMaxRetries w = MaxRetries l))"

definition pool_inv :: "pool \<Rightarrow> bool" where
  "pool_inv s \<longleftrightarrow>
     distinct (map WID (webhooks (Store s))) \<and> distinct (map ID (webhook_logs (Store s)))
     \<and> (\<forall>r \<in> set (webhook_logs (Store s)). \<forall>w \<in> set (webhooks (Store s)).
           WID w = WebhookID r \<longrightarrow> row_ok w r)
     \<and> (\<forall>k. \<forall>l \<in> set (Batch s k). copy_ok (Store s) l)"

section \<open>The example inputs, field by field\<close>

lemma ex_env_sel:
  "ParseDuration (ex_env c) s = (if s = ''30s'' then Some (30 * Second) else None)"
  "NewRequestErr (ex_env c) u = (if u = '''' then Some ''empty url'' else None)"
  "ClientDo (ex_env c) t r = Response c ''''"
  "HMAC_SHA256 (ex_env c) k m = k @ m"
  "BasicCredentials (ex_env c) us p = us @ '':'' @ p"
  "NowSign (ex_env c) = 1700000000123456789"
  "NowRetry (ex_env c) = 1700000001000000000"
  by (simp_all add: ex_env_def)

lemma ex_log_sel:
  "ID ex_log = 7" "WebhookID ex_log = 1" "Event ex_log = ''subscriber.created''"
  "URL ex_log = ''http://r/ok''" "Payload ex_log = ''{}''"
  "Status ex_log = WebhookLogStatusPending" "Attempts ex_log = 0"
  "NextRetryAt ex_log = None" "CreatedAt ex_log = 5"
  "MaxRetries ex_log = 3" "Timeout ex_log = ''30s''" "AuthType ex_log = WebhookAuthTypeHMAC"
  "AuthHMACSecret ex_log = ''k''"
  by (simp_all add: ex_log_def join_log_def ex_row_def ex_webhook_def)

section \<open>Signing (C4)\<close>

lemma hex_digit_lower: "hex_digit d \<in> set ''0123456789abcdef''"
  unfolding hex_digit_def by (rule nth_mem) simp

lemma EncodeToString_lower: "set (EncodeToString bs) \<subseteq> set ''0123456789abcdef''"
  using hex_digit_lower by (auto simp: EncodeToString_def hex_byte_def)

lemma EncodeToString_length: "length (EncodeToString bs) = 2 * length bs"
  by (induction bs) (simp_all add: EncodeToString_def hex_byte_def)

lemma fst_deliverWebhook:
  "fst (deliverWebhook env l) = Some req \<Longrightarrow> req = buildRequest env l"
  by (auto simp: deliverWebhook_def Let_def split: option.splits http_result.splits if_splits)

text \<open>
  C4. In every attempt that goes out for an endpoint in hmac mode, with one reading
  \<open>ts\<close> of the clock in Unix seconds, the header \<open>X-Listmonk-Signature\<close> is
  \<open>sha256=\<close> followed by the lower-case hexadecimal digits of the keyed hash, under
  the endpoint's secret, of the decimal \<open>ts\<close>, a dot and the payload bytes; the header
  \<open>X-Listmonk-Timestamp\<close> is the decimal of the same \<open>ts\<close>. The signature is the
  value of the total function \<open>computeHMAC\<close> at payload, secret and \<open>ts\<close>: nothing
  else enters it and it cannot fail.
\<close>

theorem C4_hmac_signature:
  assumes "fst (deliverWebhook env l) = Some req"
    and "AuthType l = WebhookAuthTypeHMAC"
  shows "Header req ''X-Listmonk-Signature'' =
           Some (''sha256='' @ EncodeToString
                   (HMAC_SHA256 env (AuthHMACSecret l)
                      (decimal (Unix (NowSign env)) @ ''.'' @ Payload l)))
       \<and> Header req ''X-Listmonk-Timestamp'' = Some (decimal (Unix (NowSign env)))
       \<and> Header req ''X-Listmonk-Signature'' =
           Some (computeHMAC (HMAC_SHA256 env) (Payload l) (AuthHMACSecret l) (Unix (NowSign env)))
       \<and> set (EncodeToString (HMAC_SHA256 env (AuthHMACSecret l)
                      (decimal (Unix (NowSign env)) @ ''.'' @ Payload l)))
           \<subseteq> set ''0123456789abcdef''"
proof -
  have req: "req = buildRequest env l"
    using assms(1) by (rule fst_deliverWebhook)
  have h: "Header req = [''Content-Type'' \<mapsto> ''application/json'',
                ''User-Agent'' \<mapsto> ''listmonk-webhook/1.0'',
                ''X-Listmonk-Event'' \<mapsto> Event l,
                ''X-Listmonk-Delivery'' \<mapsto> decimal (ID l),
                ''X-Listmonk-Signature'' \<mapsto>
                   computeHMAC (HMAC_SHA256 env) (Payload l) (AuthHMACSecret l) (Unix (NowSign env)),
                ''X-Listmonk-Timestamp'' \<mapsto> decimal (Unix (NowSign env))]"
    unfolding req buildRequest_def Let_def using assms(2) by simp
  have s: "Header req ''X-Listmonk-Signature'' =
      Some (computeHMAC (HMAC_SHA256 env) (Payload l) (AuthHMACSecret l) (Unix (NowSign env)))"
    unfolding h by simp
  have t: "Header req ''X-Listmonk-Timestamp'' = Some (decimal (Unix (NowSign env)))"
    unfolding h by simp
  have c: "computeHMAC (HMAC_SHA256 env) (Payload l) (AuthHMACSecret l) (Unix (NowSign env)) =
      ''sha256='' @ EncodeToString (HMAC_SHA256 env (AuthHMACSecret l)
                      (decimal (Unix (NowSign env)) @ ''.'' @ Payload l))"
    unfolding computeHMAC_def Let_def ..
  from s t c EncodeToString_lower show ?thesis
    by (intro conjI) (simp_all only:)
qed

theorem C4_hmac_signature_witness:
  "fst (deliverWebhook (ex_env 204) ex_log) = Some (buildRequest (ex_env 204) ex_log)
   \<and> AuthType ex_log = WebhookAuthTypeHMAC
   \<and> Header (buildRequest (ex_env 204) ex_log) ''X-Listmonk-Timestamp'' = Some ''1700000000''
   \<and> Header (buildRequest (ex_env 204) ex_log) ''X-Listmonk-Signature''
        = Some (''sha256='' @ EncodeToString (''k'' @ ''1700000000'' @ ''.'' @ ''{}''))"
proof -
  have a: "fst (deliverWebhook (ex_env 204) ex_log) = Some (buildRequest (ex_env 204) ex_log)"
    by (simp add: deliverWebhook_def ex_env_sel ex_log_sel)
  have b: "AuthType ex_log = WebhookAuthTypeHMAC"
    by (simp add: ex_log_sel)
  have d: "decimal (Unix 1700000000123456789) = ''1700000000''"
    unfolding Unix_def by (simp add: decimal_def digit_char_def nat_decimal.simps)
  note r = C4_hmac_signature [OF a b, unfolded ex_env_sel ex_log_sel d]
  from r a b show ?thesis by (intro conjI) (simp_all only:)
qed

section \<open>Classification of a response (C5)\<close>

lemma deliverWebhook_response:
  assumes "NewRequestErr env (URL l) = None"
    and "ClientDo env (request_timeout env l) (buildRequest env l) = Response code body"
  shows "snd (deliverWebhook env l) =
           (if 200 \<le> code \<and> code < 300 then updateLogSuccess l code (take 1024 body)
            else handleDeliveryError env l code (take 1024 body)
                   (''non-2xx status: '' @ decimal code))"
  using assms by (simp add: deliverWebhook_def Let_def)





lemma ex_timeout: "request_timeout (ex_env c) ex_log = 30 * Second"
  by (simp add: request_timeout_def ex_env_sel ex_log_sel)


section \<open>Retry scheduling (C2, C3)\<close>

lemma sint_small:
  assumes "- (2 ^ 63) \<le> (x::int)" "x < 2 ^ 63"
  shows "sint (word_of_int x :: 64 word) = x"
proof -
  have "sint (word_of_int x :: 64 word) = signed_take_bit 63 x"
    by (simp only: sint_sbintrunc') simp
  also have "\<dots> = x" using assms by (rule signed_take_bit_int_eq_self)
  finally show ?thesis .
qed

lemma shift_word:
  "n < 64 \<Longrightarrow> (if n \<ge> 64 then 0 else push_bit n (1 :: duration)) * 30 * Second
                 = word_of_int (30000000000 * 2 ^ n)"
  by (simp add: push_bit_eq_mult)

text \<open>Up to 28 attempts the products do not wrap and the delay is the intended one.\<close>

lemma backoff_small:
  assumes a: "1 \<le> a" "a \<le> 28"
  shows "sint (backoff a) = min 7200000000000 (30000000000 * 2 ^ nat a)"
proof -
  define n where "n = nat a"
  have n: "n \<le> 28" "nat (a mod 2 ^ 64) = n" using a by (auto simp: n_def)
  have pw: "(2::int) ^ n \<le> 2 ^ 28" using n by (intro power_increasing) auto
  define p :: int where "p = 2 ^ n"
  have p: "0 < p" "p \<le> 268435456" using pw by (simp_all add: p_def)
  define b :: duration where "b = word_of_int (30000000000 * 2 ^ n)"
  have sb: "sint b = 30000000000 * p"
    unfolding b_def p_def[symmetric] using p by (intro sint_small) simp_all
  have bo: "backoff a = (if 2 * Hour <s b then 2 * Hour else b)"
    using n shift_word[of n] by (simp add: backoff_def Let_def b_def)
  have h: "sint (2 * Hour :: duration) = 7200000000000" by simp
  show ?thesis unfolding bo n_def[symmetric] p_def[symmetric] using sb h
    by (simp add: word_sless_alt min_def)
qed

lemma backoff_at_most_2h: "sint (backoff a) \<le> 7200000000000"
proof -
  have h: "sint (2 * Hour :: duration) = 7200000000000" by simp
  show ?thesis
    unfolding backoff_def Let_def using h by (auto simp: word_sless_alt simp del: sint_numeral)
qed

lemma backoff_default_waits:
  "sint (backoff 1) = 60000000000" "sint (backoff 2) = 120000000000"
  "sint (backoff 3) = 240000000000"
  by (simp_all add: backoff_def word_sless_alt)

lemma handleDeliveryError_exhausted:
  "Attempts l + 1 > MaxRetries l \<Longrightarrow>
   handleDeliveryError env l c b e =
     \<lparr>u_id = ID l, u_status = WebhookLogStatusFailed, u_response_code = c,
      u_response_body = b, u_error = e, u_attempts = Attempts l + 1, u_next_retry_at = None\<rparr>"
  by (simp add: handleDeliveryError_def updateLogFailed_def Let_def)

lemma handleDeliveryError_retry:
  "Attempts l + 1 \<le> MaxRetries l \<Longrightarrow>
   handleDeliveryError env l c b e =
     \<lparr>u_id = ID l, u_status = WebhookLogStatusPending, u_response_code = c,
      u_response_body = b, u_error = e, u_attempts = Attempts l + 1,
      u_next_retry_at = Some (NowRetry env + sint (backoff (Attempts l + 1)))\<rparr>"
  by (simp add: handleDeliveryError_def Let_def)

lemma retry_in_future_up_to_28:
  assumes "0 \<le> Attempts l" "Attempts l + 1 \<le> MaxRetries l" "Attempts l + 1 \<le> 28"
  shows "\<exists>t. u_next_retry_at (handleDeliveryError env l c b e) = Some t \<and> NowRetry env < t
           \<and> t - NowRetry env = min 7200000000000 (30000000000 * 2 ^ nat (Attempts l + 1))"
proof -
  have "sint (backoff (Attempts l + 1)) = min 7200000000000 (30000000000 * 2 ^ nat (Attempts l + 1))"
    using assms by (intro backoff_small) auto
  moreover have "(0::int) < min 7200000000000 (30000000000 * 2 ^ nat (Attempts l + 1))"
    by simp
  ultimately show ?thesis
    using assms(2) by (simp add: handleDeliveryError_retry)
qed

lemma late_log_sel:
  "ID late_log = 7" "URL late_log = ''http://r/ok''" "Attempts late_log = 28"
  "MaxRetries late_log = 29" "Timeout late_log = ''30s''" "Status late_log = WebhookLogStatusPending"
  by (simp_all add: late_log_def ex_log_sel)

lemma backoff_29: "sint (backoff 29) = - 2340616713709551616"
  by (simp add: backoff_def word_sless_alt)

text \<open>
  C2. The code at the failing input: a pending row with 28 attempts made, of an
  endpoint with 29 retries, whose 29th attempt is answered with status 500. The
  attempt is within the budget and the row stays pending with 29 attempts, but the
  retry time written lies about 74 years before the time of the update, not after it.
\<close>

theorem C2_retry_time_in_the_past:
  "snd (deliverWebhook (ex_env 500) late_log) =
     \<lparr>u_id = 7, u_status = WebhookLogStatusPending, u_response_code = 500,
      u_response_body = '''', u_error = ''non-2xx status: 500'', u_attempts = 29,
      u_next_retry_at = Some (NowRetry (ex_env 500) - 2340616713709551616)\<rparr>
   \<and> u_attempts (snd (deliverWebhook (ex_env 500) late_log)) \<le> MaxRetries late_log
   \<and> the (u_next_retry_at (snd (deliverWebhook (ex_env 500) late_log))) < NowRetry (ex_env 500)"
proof -
  have a: "NewRequestErr (ex_env 500) (URL late_log) = None"
    by (simp add: ex_env_sel late_log_sel)
  have b: "ClientDo (ex_env 500) (request_timeout (ex_env 500) late_log)
             (buildRequest (ex_env 500) late_log) = Response 500 ''''"
    by (simp add: ex_env_sel)
  have d: "decimal 500 = ''500''"
    by (simp add: decimal_def digit_char_def nat_decimal.simps)
  have r: "Attempts late_log + 1 \<le> MaxRetries late_log"
    by (simp add: late_log_sel)
  have u: "snd (deliverWebhook (ex_env 500) late_log) =
     \<lparr>u_id = 7, u_status = WebhookLogStatusPending, u_response_code = 500,
      u_response_body = '''', u_error = ''non-2xx status: 500'', u_attempts = 29,
      u_next_retry_at = Some (NowRetry (ex_env 500) - 2340616713709551616)\<rparr>"
    unfolding deliverWebhook_response [OF a b] handleDeliveryError_retry [OF r]
    by (simp add: late_log_sel backoff_29 d)
  show ?thesis unfolding u by (simp add: late_log_sel)
qed

text \<open>
  C3. The code at the failing input: for the 29th attempt (within a budget of 29
  retries) the 64-bit product \<open>2^29 * 30 * 10^9\<close> wraps to a negative duration, the
  cap at two hours does not apply to it, and the delay written is that negative
  duration instead of the two hours that \<open>min(2 hours, 30s * 2^29)\<close> gives.
\<close>

theorem C3_backoff_wraps_at_29:
  "Attempts late_log + 1 = 29 \<and> Attempts late_log + 1 \<le> MaxRetries late_log
   \<and> sint (backoff (Attempts late_log + 1)) = - 2340616713709551616
   \<and> min 7200000000000 (30000000000 * 2 ^ 29) = (7200000000000 :: int)
   \<and> the (u_next_retry_at (handleDeliveryError env late_log c b e)) - NowRetry env
        = - 2340616713709551616"
proof -
  have r: "Attempts late_log + 1 \<le> MaxRetries late_log"
    by (simp add: late_log_sel)
  show ?thesis
    unfolding handleDeliveryError_retry [OF r]
    by (simp add: late_log_sel backoff_29)
qed

section \<open>Selection of due rows (C6)\<close>

lemma u_id_deliverWebhook: "u_id (snd (deliverWebhook env l)) = ID l"
  by (simp add: deliverWebhook_def Let_def handleDeliveryError_def updateLogFailed_def
        updateLogSuccess_def split: option.splits http_result.splits)

lemma deliver_batch_ids: "map u_id (snd (deliver_batch env k ls d)) = map ID ls"
proof (induction ls arbitrary: k d)
  case Nil
  show ?case by simp
next
  case (Cons l ls)
  define d' where "d' = exec_update_webhook_log (UpdateErr env k) d (NowUpdate env k)
              (snd (deliverWebhook (DeliverEnv env k) l))"
  obtain d'' us where e: "deliver_batch env (Suc k) ls d' = (d'', us)"
    by (cases "deliver_batch env (Suc k) ls d'")
  from Cons.IH [of "Suc k" d'] e have "map u_id us = map ID ls" by simp
  with e show ?case by (simp add: Let_def u_id_deliverWebhook d'_def [symmetric])
qed

lemma get_pending_subset:
  "set (get_pending_webhook_logs d now limit) \<subseteq> {l. due now l}"
proof
  fix l assume "l \<in> set (get_pending_webhook_logs d now limit)"
  then have "l \<in> set (sort_key CreatedAt (filter (due now)
       (concat (map (\<lambda>l. map (join_log l) (filter (\<lambda>w. WID w = WebhookID l) (webhooks d)))
                    (webhook_logs d)))))"
    unfolding get_pending_webhook_logs_def by (rule in_set_takeD)
  then show "l \<in> {l. due now l}" by simp
qed

lemma get_pending_sorted: "sorted (map CreatedAt (get_pending_webhook_logs d now limit))"
  unfolding get_pending_webhook_logs_def take_map [symmetric]
  by (intro sorted_wrt_take) (rule sorted_sort_key)

text \<open>
  C6. Every row that \<open>get-pending-webhook-logs\<close> returns is pending and has no retry
  time or one that is not after the time of the query; the rows come in ascending
  order of \<open>created_at\<close>; there are at most \<open>limit\<close> of them. \<open>processPendingLogs\<close>
  asks for 100 rows and issues its updates for exactly these rows in that order.
\<close>

theorem C6_pending_due:
  "(\<forall>l \<in> set (get_pending_webhook_logs d now limit).
       Status l = WebhookLogStatusPending
     \<and> (NextRetryAt l = None \<or> (\<exists>t. NextRetryAt l = Some t \<and> t \<le> now)))
   \<and> sorted (map CreatedAt (get_pending_webhook_logs d now limit))
   \<and> length (get_pending_webhook_logs d now limit) \<le> limit
   \<and> (FetchErr env = None \<longrightarrow>
        map u_id (snd (processPendingLogs env d))
          = map ID (get_pending_webhook_logs d (NowFetch env) 100))"
proof -
  have "Status l = WebhookLogStatusPending
     \<and> (NextRetryAt l = None \<or> (\<exists>t. NextRetryAt l = Some t \<and> t \<le> now))"
    if "l \<in> set (get_pending_webhook_logs d now limit)" for l
  proof -
    from that get_pending_subset have "due now l" by blast
    then show ?thesis by (auto simp: due_def split: option.splits)
  qed
  moreover have "length (get_pending_webhook_logs d now limit) \<le> limit"
    by (simp add: get_pending_webhook_logs_def)
  moreover have "map u_id (snd (processPendingLogs env d))
          = map ID (get_pending_webhook_logs d (NowFetch env) 100)" if "FetchErr env = None"
    using that by (simp add: processPendingLogs_def deliver_batch_ids)
  ultimately show ?thesis using get_pending_sorted by blast
qed

lemma queue_db_pending:
  "get_pending_webhook_logs queue_db 10 100 =
     [join_log (ex_row\<lparr>ID := 3, CreatedAt := 4, Attempts := 1, NextRetryAt := Some 8\<rparr>) ex_webhook,
      join_log (ex_row\<lparr>ID := 2, CreatedAt := 9\<rparr>) ex_webhook]"
  by (simp add: get_pending_webhook_logs_def queue_db_def ex_row_def ex_webhook_def
        join_log_def due_def)

theorem C6_pending_due_witness:
  "map ID (get_pending_webhook_logs queue_db 10 100) = [3, 2]
   \<and> map Status (get_pending_webhook_logs queue_db 10 100)
        = [WebhookLogStatusPending, WebhookLogStatusPending]
   \<and> sorted (map CreatedAt (get_pending_webhook_logs queue_db 10 100))
   \<and> FetchErr ex_batch_env = None
   \<and> map u_id (snd (processPendingLogs ex_batch_env queue_db)) = [3, 2]"
proof -
  have f: "FetchErr ex_batch_env = None" "NowFetch ex_batch_env = 10"
    by (simp_all add: ex_batch_env_def)
  have i: "map ID (get_pending_webhook_logs queue_db 10 100) = [3, 2]"
    unfolding queue_db_pending by (simp add: join_log_def)
  from C6_pending_due [of queue_db 10 100 ex_batch_env]
  have a: "\<forall>l \<in> set (get_pending_webhook_logs queue_db 10 100). Status l = WebhookLogStatusPending"
    and b: "sorted (map CreatedAt (get_pending_webhook_logs queue_db 10 100))"
    and c: "map u_id (snd (processPendingLogs ex_batch_env queue_db))
          = map ID (get_pending_webhook_logs queue_db 10 100)"
    using f by simp_all
  from a have s: "map Status (get_pending_webhook_logs queue_db 10 100)
        = [WebhookLogStatusPending, WebhookLogStatusPending]"
    unfolding queue_db_pending by simp
  from i s b f c show ?thesis by simp
qed

section \<open>Trigger (C1, C8)\<close>

lemma accepted_all: "(\<forall>j. k \<le> j \<and> j < k + length xs \<longrightarrow> f j = None) \<Longrightarrow> accepted f k xs = xs"
proof (induction xs arbitrary: k)
  case Nil
  show ?case by simp
next
  case (Cons x xs)
  have "f k = None" using Cons.prems by simp
  moreover have "accepted f (Suc k) xs = xs"
    using Cons.prems by (intro Cons.IH) auto
  ultimately show ?case by simp
qed

lemma accepted_length: "length (accepted f k xs) \<le> length xs"
  by (induction xs arbitrary: k) (auto simp: le_SucI)

lemma accepted_none: "(\<forall>j. f j \<noteq> None) \<Longrightarrow> accepted f k xs = []"
  by (induction xs arbitrary: k) auto

lemma create_webhook_log_ok:
  assumes "webhook_id \<in> set (map WID (webhooks d))"
  shows "\<exists>row. create_webhook_log d now webhook_id event url payload status nra
            = Inr (d\<lparr>webhook_logs := webhook_logs d @ [row],
                     webhook_logs_id_seq := webhook_logs_id_seq d + 1\<rparr>)
         \<and> WebhookID row = webhook_id \<and> Event row = event \<and> URL row = url
         \<and> Payload row = payload \<and> Status row = status \<and> Attempts row = 0
         \<and> NextRetryAt row = nra \<and> ResponseCode row = None"
proof -
  let ?row = "\<lparr>ID = webhook_logs_id_seq d + 1, WebhookID = webhook_id, Event = event,
                URL = url, Payload = payload, Status = status, ResponseCode = None,
                ResponseBody = [], Error = [], Attempts = 0,
                NextRetryAt = nra, CreatedAt = now, UpdatedAt = now\<rparr>"
  show ?thesis
    by (rule exI [of _ ?row]) (use assms in \<open>simp add: create_webhook_log_def Let_def\<close>)
qed

text \<open>What the loop of \<open>Trigger\<close> adds to the store.\<close>

lemma create_logs_rows:
  assumes "\<forall>wh \<in> set whs. WID wh \<in> set (map WID (webhooks d))"
  shows "\<exists>new. webhook_logs (create_logs env event pb k whs d) = webhook_logs d @ new
           \<and> webhooks (create_logs env event pb k whs d) = webhooks d
           \<and> map WebhookID new = map WID (accepted (InsertErr env) k whs)
           \<and> map URL new = map WURL (accepted (InsertErr env) k whs)
           \<and> (\<forall>r \<in> set new. Status r = WebhookLogStatusPending \<and> Attempts r = 0
                  \<and> NextRetryAt r = None \<and> Payload r = pb \<and> Event r = event)"
  using assms
proof (induction whs arbitrary: k d)
  case Nil
  show ?case by simp
next
  case (Cons wh whs)
  show ?case
  proof (cases "InsertErr env k")
    case (Some err)
    have "\<forall>wh \<in> set whs. WID wh \<in> set (map WID (webhooks d))"
      using Cons.prems by simp
    from Cons.IH [OF this, of "Suc k"] show ?thesis
      using Some by (simp add: exec_create_webhook_log_def)
  next
    case None
    have "WID wh \<in> set (map WID (webhooks d))"
      using Cons.prems by simp
    from create_webhook_log_ok [OF this, of "NowDB env" event "WURL wh" pb WebhookLogStatusPending None]
    obtain row where c: "create_webhook_log d (NowDB env) (WID wh) event (WURL wh) pb
                           WebhookLogStatusPending None
            = Inr (d\<lparr>webhook_logs := webhook_logs d @ [row],
                     webhook_logs_id_seq := webhook_logs_id_seq d + 1\<rparr>)"
      and row: "WebhookID row = WID wh" "Event row = event" "URL row = WURL wh"
        "Payload row = pb" "Status row = WebhookLogStatusPending" "Attempts row = 0"
        "NextRetryAt row = None"
      by blast
    define d1 where "d1 = d\<lparr>webhook_logs := webhook_logs d @ [row],
                     webhook_logs_id_seq := webhook_logs_id_seq d + 1\<rparr>"
    have d1: "webhooks d1 = webhooks d" "webhook_logs d1 = webhook_logs d @ [row]"
      by (simp_all add: d1_def)
    have "\<forall>wh \<in> set whs. WID wh \<in> set (map WID (webhooks d1))"
      using Cons.prems by (simp add: d1)
    from Cons.IH [OF this, of "Suc k"]
    obtain new where n: "webhook_logs (create_logs env event pb (Suc k) whs d1) = webhook_logs d1 @ new"
      "webhooks (create_logs env event pb (Suc k) whs d1) = webhooks d1"
      "map WebhookID new = map WID (accepted (InsertErr env) (Suc k) whs)"
      "map URL new = map WURL (accepted (InsertErr env) (Suc k) whs)"
      "\<forall>r \<in> set new. Status r = WebhookLogStatusPending \<and> Attempts r = 0
                  \<and> NextRetryAt r = None \<and> Payload r = pb \<and> Event r = event"
      by blast
    have step: "create_logs env event pb k (wh # whs) d = create_logs env event pb (Suc k) whs d1"
      using None c by (simp add: exec_create_webhook_log_def d1_def)
    show ?thesis
      unfolding step
      by (rule exI [of _ "row # new"]) (use n row None d1 in simp)
  qed
qed

lemma matching_in_store:
  "\<forall>wh \<in> set (get_webhooks_by_event d event). WID wh \<in> set (map WID (webhooks d))"
  by (auto simp: get_webhooks_by_event_def)

lemma matching_count:
  "length (get_webhooks_by_event d event) = length (filter (subscribed event) (webhooks d))"
  by (simp add: get_webhooks_by_event_def)

lemma Trigger_success:
  assumes "Trigger env d event data = (None, d')"
  shows "SelectErr env = None
       \<and> (get_webhooks_by_event d event = [] \<and> d' = d
          \<or> (\<exists>pb. get_webhooks_by_event d event \<noteq> []
                \<and> Marshal env \<lparr>EvEvent = event, EvTimestamp = NowUTC env, EvData = data\<rparr> = Inr pb
                \<and> d' = create_logs env event pb 0 (get_webhooks_by_event d event) d))"
  using assms
  by (auto simp: Trigger_def Let_def split: option.splits sum.splits if_splits)

text \<open>The rows a successful call adds.\<close>

lemma Trigger_new_rows:
  assumes "Trigger env d e data = (None, d')"
  shows "webhook_logs d' = webhook_logs d @ new_rows d d'
       \<and> map WebhookID (new_rows d d')
            = map WID (accepted (InsertErr env) 0 (get_webhooks_by_event d e))
       \<and> map URL (new_rows d d')
            = map WURL (accepted (InsertErr env) 0 (get_webhooks_by_event d e))
       \<and> (\<forall>r \<in> set (new_rows d d').
             Status r = WebhookLogStatusPending \<and> Attempts r = 0 \<and> NextRetryAt r = None
           \<and> Event r = e
           \<and> Marshal env \<lparr>EvEvent = e, EvTimestamp = NowUTC env, EvData = data\<rparr>
                = Inr (Payload r))
       \<and> (get_webhooks_by_event d e = [] \<longrightarrow> d' = d)"
proof -
  let ?whs = "get_webhooks_by_event d e"
  from Trigger_success [OF assms]
  consider (empty) "?whs = []" "d' = d"
    | (rows) pb where "?whs \<noteq> []"
        "Marshal env \<lparr>EvEvent = e, EvTimestamp = NowUTC env, EvData = data\<rparr> = Inr pb"
        "d' = create_logs env e pb 0 ?whs d"
    by blast
  then show ?thesis
  proof cases
    case empty
    then show ?thesis by (simp add: new_rows_def)
  next
    case rows
    from create_logs_rows [OF matching_in_store, where env = env and pb = pb and k = 0 and event = e]
    obtain new where n: "webhook_logs d' = webhook_logs d @ new"
      "map WebhookID new = map WID (accepted (InsertErr env) 0 ?whs)"
      "map URL new = map WURL (accepted (InsertErr env) 0 ?whs)"
      "\<forall>r \<in> set new. Status r = WebhookLogStatusPending \<and> Attempts r = 0
                  \<and> NextRetryAt r = None \<and> Payload r = pb \<and> Event r = e"
      unfolding rows(3) by blast
    have nr: "new_rows d d' = new"
      by (simp add: new_rows_def n(1))
    show ?thesis
      unfolding nr using n rows(1,2) by simp
  qed
qed

text \<open>What a call that returned success has done to the store.\<close>

lemma Trigger_success_rows:
  assumes "Trigger env d e data = (None, d')"
  shows "webhook_logs d' = webhook_logs d @ new_rows d d'
       \<and> map WebhookID (new_rows d d')
            = map WID (accepted (InsertErr env) 0 (get_webhooks_by_event d e))
       \<and> map URL (new_rows d d')
            = map WURL (accepted (InsertErr env) 0 (get_webhooks_by_event d e))
       \<and> length (new_rows d d') \<le> length (filter (subscribed e) (webhooks d))
       \<and> ((\<forall>k < length (filter (subscribed e) (webhooks d)). InsertErr env k = None)
            \<longrightarrow> length (new_rows d d') = length (filter (subscribed e) (webhooks d)))
       \<and> (\<forall>r \<in> set (new_rows d d').
             Status r = WebhookLogStatusPending \<and> Attempts r = 0 \<and> NextRetryAt r = None
           \<and> Event r = e
           \<and> Marshal env \<lparr>EvEvent = e, EvTimestamp = NowUTC env, EvData = data\<rparr>
                = Inr (Payload r))
       \<and> (filter (subscribed e) (webhooks d) = [] \<longrightarrow> d' = d)"
proof -
  let ?whs = "get_webhooks_by_event d e"
  let ?new = "new_rows d d'"
  note n = Trigger_new_rows [OF assms]
  have len: "length ?new = length (accepted (InsertErr env) 0 ?whs)"
    using n by (metis length_map)
  have le: "length ?new \<le> length (filter (subscribed e) (webhooks d))"
    unfolding len matching_count [symmetric] by (rule accepted_length)
  have all: "length ?new = length (filter (subscribed e) (webhooks d))"
    if "\<forall>k < length (filter (subscribed e) (webhooks d)). InsertErr env k = None"
  proof -
    have "accepted (InsertErr env) 0 ?whs = ?whs"
      using that by (intro accepted_all) (simp add: matching_count)
    then show ?thesis by (simp add: len matching_count)
  qed
  have emp: "d' = d" if "filter (subscribed e) (webhooks d) = []"
  proof -
    have "?whs = []" using that matching_count [of d e] by simp
    with n show ?thesis by simp
  qed
  from n le all emp show ?thesis by simp
qed

lemma Trigger_no_endpoint:
  assumes "SelectErr env = None" and "filter (subscribed e) (webhooks d) = []"
  shows "Trigger env d e data = (None, d)"
proof -
  have "get_webhooks_by_event d e = []"
    using assms(2) matching_count [of d e] by simp
  with assms(1) show ?thesis by (simp add: Trigger_def)
qed

text \<open>
  C1, amended. For every call \<open>Trigger(e, d)\<close> that returns success, the new log rows
  are one for each matching endpoint (status enabled, \<open>e\<close> among its events) whose
  insert did not fail, in the order of the endpoints, with that endpoint's id and
  URL; so there are at most as many as matching endpoints, and exactly as many when
  no insert fails. Each new row has status pending, attempts 0, no retry time and as
  payload the JSON encoding of event \<open>e\<close>, the time read during the call and the data.
  When the select succeeds and finds no matching endpoint, the call returns success
  and leaves the store as it was, so it inserts no row.
\<close>

theorem C1_trigger_rows:
  "(Trigger env d e data = (None, d') \<longrightarrow>
       webhook_logs d' = webhook_logs d @ new_rows d d'
     \<and> map WebhookID (new_rows d d')
          = map WID (accepted (InsertErr env) 0 (get_webhooks_by_event d e))
     \<and> map URL (new_rows d d')
          = map WURL (accepted (InsertErr env) 0 (get_webhooks_by_event d e))
     \<and> length (new_rows d d') \<le> length (filter (subscribed e) (webhooks d))
     \<and> ((\<forall>k < length (filter (subscribed e) (webhooks d)). InsertErr env k = None)
          \<longrightarrow> length (new_rows d d') = length (filter (subscribed e) (webhooks d)))
     \<and> (\<forall>r \<in> set (new_rows d d').
           Status r = WebhookLogStatusPending \<and> Attempts r = 0 \<and> NextRetryAt r = None
         \<and> Event r = e
         \<and> Marshal env \<lparr>EvEvent = e, EvTimestamp = NowUTC env, EvData = data\<rparr>
              = Inr (Payload r))
     \<and> (filter (subscribed e) (webhooks d) = [] \<longrightarrow> d' = d))
   \<and> (SelectErr env = None \<and> filter (subscribed e) (webhooks d) = [] \<longrightarrow>
        Trigger env d e data = (None, d) \<and> new_rows d d = [])"
proof -
  have empty: "Trigger env d e data = (None, d) \<and> new_rows d d = []"
    if "SelectErr env = None" "filter (subscribed e) (webhooks d) = []"
    using Trigger_no_endpoint [OF that] by (simp add: new_rows_def)
  from Trigger_success_rows [of env d e data d'] empty show ?thesis by blast
qed

lemma trig_env_sel:
  "SelectErr trig_env = None" "NowUTC trig_env = 1700000000000000000"
  "Marshal trig_env p = Inr (EvEvent p)"
  "InsertErr trig_env k = (if k = 0 then Some ''connection reset'' else None)"
  "NowDB trig_env = 1700000000000000500"
  by (simp_all add: trig_env_def)

lemma bad_json_env_sel:
  "SelectErr bad_json_env = None" "Marshal bad_json_env p = Inl ''json: unsupported type''"
  by (simp_all add: bad_json_env_def trig_env_def)

lemma fanout_matching:
  "get_webhooks_by_event fanout_db ''subscriber.created''
     = [ex_webhook, ex_webhook\<lparr>WID := 2, WURL := ''http://s/in'', WCreatedAt := 1\<rparr>]"
  by (simp add: get_webhooks_by_event_def fanout_db_def subscribed_def ex_webhook_def)

lemma fanout_matching_count:
  "length (filter (subscribed ''subscriber.created'') (webhooks fanout_db)) = 2"
  unfolding matching_count [symmetric] fanout_matching by simp

lemma fanout_trigger:
  "Trigger trig_env fanout_db ''subscriber.created'' () =
     (None, fanout_db\<lparr>webhook_logs :=
        [\<lparr>ID = 1, WebhookID = 2, Event = ''subscriber.created'', URL = ''http://s/in'',
          Payload = ''subscriber.created'', Status = WebhookLogStatusPending,
          ResponseCode = None, ResponseBody = '''', Error = '''', Attempts = 0,
          NextRetryAt = None, CreatedAt = 1700000000000000500,
          UpdatedAt = 1700000000000000500\<rparr>],
        webhook_logs_id_seq := 1\<rparr>)"
  unfolding Trigger_def fanout_matching
  by (simp add: trig_env_sel exec_create_webhook_log_def create_webhook_log_def Let_def
        fanout_db_def ex_webhook_def)

text \<open>
  C1 as stated fails: with two matching endpoints and a first insert that fails, the
  call returns success and has created one row.
\<close>

theorem C1_counterexample:
  "fst (Trigger trig_env fanout_db ''subscriber.created'' ()) = None
   \<and> length (new_rows fanout_db (snd (Trigger trig_env fanout_db ''subscriber.created'' ()))) = 1
   \<and> length (filter (subscribed ''subscriber.created'') (webhooks fanout_db)) = 2"
  unfolding fanout_trigger fanout_matching_count
  by (simp add: new_rows_def fanout_db_def)

lemma fanout_no_match:
  "filter (subscribed ''campaign.started'') (webhooks fanout_db) = []"
  by (simp add: fanout_db_def subscribed_def ex_webhook_def)

theorem C1_trigger_rows_witness:
  "Trigger trig_env fanout_db ''subscriber.created'' ()
     = (None, snd (Trigger trig_env fanout_db ''subscriber.created'' ()))
   \<and> map WebhookID (new_rows fanout_db (snd (Trigger trig_env fanout_db ''subscriber.created'' ())))
       = [2]
   \<and> map URL (new_rows fanout_db (snd (Trigger trig_env fanout_db ''subscriber.created'' ())))
       = [''http://s/in'']
   \<and> map Attempts (new_rows fanout_db (snd (Trigger trig_env fanout_db ''subscriber.created'' ())))
       = [0]
   \<and> SelectErr trig_env = None
   \<and> filter (subscribed ''campaign.started'') (webhooks fanout_db) = []
   \<and> Trigger trig_env fanout_db ''campaign.started'' () = (None, fanout_db)"
proof -
  have t: "Trigger trig_env fanout_db ''subscriber.created'' ()
     = (None, snd (Trigger trig_env fanout_db ''subscriber.created'' ()))"
    unfolding fanout_trigger by simp
  have a: "accepted (InsertErr trig_env) 0 (get_webhooks_by_event fanout_db ''subscriber.created'')
             = [ex_webhook\<lparr>WID := 2, WURL := ''http://s/in'', WCreatedAt := 1\<rparr>]"
    unfolding fanout_matching by (simp add: trig_env_sel)
  have n: "length (new_rows fanout_db (snd (Trigger trig_env fanout_db ''subscriber.created'' ()))) = 1"
    unfolding fanout_trigger by (simp add: new_rows_def fanout_db_def)
  note rows = C1_trigger_rows [of trig_env fanout_db "''subscriber.created''" "()"
                "snd (Trigger trig_env fanout_db ''subscriber.created'' ())",
                THEN conjunct1, rule_format, OF t]
  from rows
  have w: "map WebhookID (new_rows fanout_db (snd (Trigger trig_env fanout_db ''subscriber.created'' ())))
            = [2]"
    and u: "map URL (new_rows fanout_db (snd (Trigger trig_env fanout_db ''subscriber.created'' ())))
            = [''http://s/in'']"
    and r: "\<forall>r \<in> set (new_rows fanout_db (snd (Trigger trig_env fanout_db ''subscriber.created'' ()))).
              Attempts r = 0"
    unfolding a by simp_all
  from n r have m: "map Attempts (new_rows fanout_db (snd (Trigger trig_env fanout_db ''subscriber.created'' ())))
       = [0]"
    by (cases "new_rows fanout_db (snd (Trigger trig_env fanout_db ''subscriber.created'' ()))") auto
  have s: "SelectErr trig_env = None" by (simp add: trig_env_sel)
  from C1_trigger_rows [of trig_env fanout_db "''campaign.started''" "()" fanout_db] s fanout_no_match
  have e: "Trigger trig_env fanout_db ''campaign.started'' () = (None, fanout_db)"
    by blast
  from t w u m s fanout_no_match e show ?thesis by simp
qed

lemma accepted_keeps:
  "j < length xs \<Longrightarrow> f (k + j) = None \<Longrightarrow> xs ! j \<in> set (accepted f k xs)"
proof (induction xs arbitrary: k j)
  case Nil
  then show ?case by simp
next
  case (Cons x xs)
  show ?case
  proof (cases j)
    case 0
    with Cons.prems show ?thesis by simp
  next
    case (Suc i)
    have "xs ! i \<in> set (accepted f (Suc k) xs)"
      using Cons.prems Suc by (intro Cons.IH) auto
    with Suc show ?thesis by simp
  qed
qed

text \<open>
  C8. When the JSON encoding of the payload fails, \<open>Trigger\<close> returns that error and
  the store is unchanged (the encoding is attempted once the select has succeeded
  with at least one endpoint). When the encoding succeeds, \<open>Trigger\<close> returns success
  whichever inserts fail, the rows created are those of the endpoints whose own
  insert did not fail, and so every endpoint whose insert does not fail gets its
  row, whatever happened to the inserts of the others.
\<close>

theorem C8_trigger_errors:
  "(SelectErr env = None \<and> get_webhooks_by_event d e \<noteq> []
      \<and> Marshal env \<lparr>EvEvent = e, EvTimestamp = NowUTC env, EvData = data\<rparr> = Inl err
      \<longrightarrow> Trigger env d e data = (Some err, d))
   \<and> (SelectErr env = None
      \<and> Marshal env \<lparr>EvEvent = e, EvTimestamp = NowUTC env, EvData = data\<rparr> = Inr pb
      \<longrightarrow> fst (Trigger env d e data) = None
        \<and> map WebhookID (new_rows d (snd (Trigger env d e data)))
             = map WID (accepted (InsertErr env) 0 (get_webhooks_by_event d e))
        \<and> (\<forall>j < length (get_webhooks_by_event d e). InsertErr env j = None \<longrightarrow>
              WID (get_webhooks_by_event d e ! j)
                \<in> set (map WebhookID (new_rows d (snd (Trigger env d e data))))))"
proof -
  let ?ev = "\<lparr>EvEvent = e, EvTimestamp = NowUTC env, EvData = data\<rparr>"
  let ?whs = "get_webhooks_by_event d e"
  have fail: "Trigger env d e data = (Some err, d)"
    if "SelectErr env = None" "?whs \<noteq> []" "Marshal env ?ev = Inl err"
    using that by (simp add: Trigger_def Let_def)
  have ok: "fst (Trigger env d e data) = None
        \<and> map WebhookID (new_rows d (snd (Trigger env d e data)))
             = map WID (accepted (InsertErr env) 0 ?whs)
        \<and> (\<forall>j < length ?whs. InsertErr env j = None \<longrightarrow>
              WID (?whs ! j) \<in> set (map WebhookID (new_rows d (snd (Trigger env d e data)))))"
    if s: "SelectErr env = None" "Marshal env ?ev = Inr pb"
  proof -
    have f: "fst (Trigger env d e data) = None"
      using s by (simp add: Trigger_def Let_def)
    then have "Trigger env d e data = (None, snd (Trigger env d e data))"
      by (metis prod.collapse)
    from Trigger_new_rows [OF this]
    have m: "map WebhookID (new_rows d (snd (Trigger env d e data)))
             = map WID (accepted (InsertErr env) 0 ?whs)"
      by simp
    have "WID (?whs ! j) \<in> set (map WID (accepted (InsertErr env) 0 ?whs))"
      if "j < length ?whs" "InsertErr env j = None" for j
      using accepted_keeps [of j ?whs "InsertErr env" 0] that by simp
    with f m show ?thesis by simp
  qed
  from fail ok show ?thesis by blast
qed

theorem C8_trigger_errors_witness:
  "Trigger bad_json_env fanout_db ''subscriber.created'' () = (Some ''json: unsupported type'', fanout_db)
   \<and> fst (Trigger trig_env fanout_db ''subscriber.created'' ()) = None
   \<and> InsertErr trig_env 0 = Some ''connection reset''
   \<and> 2 \<in> set (map WebhookID (new_rows fanout_db (snd (Trigger trig_env fanout_db ''subscriber.created'' ()))))"
proof -
  have ne: "get_webhooks_by_event fanout_db ''subscriber.created'' \<noteq> []"
    unfolding fanout_matching by simp
  note bad = C8_trigger_errors [of bad_json_env fanout_db "''subscriber.created''" "()"
                "''json: unsupported type''" "''''"]
  have b: "Trigger bad_json_env fanout_db ''subscriber.created'' () = (Some ''json: unsupported type'', fanout_db)"
    using bad ne by (simp add: bad_json_env_sel)
  note good = C8_trigger_errors [of trig_env fanout_db "''subscriber.created''" "()"
                "''''" "''subscriber.created''"]
  have g: "fst (Trigger trig_env fanout_db ''subscriber.created'' ()) = None"
    using good by (simp add: trig_env_sel)
  have "\<forall>j < 2. InsertErr trig_env j = None \<longrightarrow>
          WID ([ex_webhook, ex_webhook\<lparr>WID := 2, WURL := ''http://s/in'', WCreatedAt := 1\<rparr>] ! j)
            \<in> set (map WebhookID (new_rows fanout_db (snd (Trigger trig_env fanout_db ''subscriber.created'' ()))))"
    using good unfolding fanout_matching by (simp add: trig_env_sel)
  from this [rule_format, of 1]
  have k: "2 \<in> set (map WebhookID (new_rows fanout_db (snd (Trigger trig_env fanout_db ''subscriber.created'' ()))))"
    by (simp add: trig_env_sel)
  from b g k show ?thesis by (simp add: trig_env_sel)
qed

section \<open>Defaults at creation and none at update (C10)\<close>

lemma create_webhook_rows:
  assumes "create_webhook env d w = Inr (d', i)"
  shows "webhooks d' = webhooks d @ [w\<lparr>WID := i, WUUID := GenUUID env, WCreatedAt := CoreNow env,
                                        WUpdatedAt := CoreNow env\<rparr>]"
  using assms by (auto simp: create_webhook_def Let_def split: option.splits if_splits)

lemma update_webhook_rows:
  assumes "update_webhook env d i w = Inr (d', n)"
  shows "webhooks d' = map (\<lambda>r. if WID r = i then update_row (CoreNow env) w r else r) (webhooks d)"
  using assms by (auto simp: update_webhook_def split: option.splits if_splits)

lemma CreateWebhook_store:
  "(snd (CreateWebhook env d w) = d \<and> (\<exists>e. fst (CreateWebhook env d w) = Inl e))
   \<or> (\<exists>row. webhooks (snd (CreateWebhook env d w)) = webhooks d @ [row]
            \<and> WMaxRetries row = (if WMaxRetries w \<le> 0 then 3 else WMaxRetries w))"
proof -
  define w5 where "w5 = set_defaults (check_auth_type w)"
  have m: "WMaxRetries w5 = (if WMaxRetries w \<le> 0 then 3 else WMaxRetries w)"
    by (simp add: w5_def set_defaults_def check_auth_type_def)
  show ?thesis
  proof (cases "check_fields w")
    case (Some err)
    then show ?thesis by (simp add: CreateWebhook_def)
  next
    case None
    show ?thesis
    proof (cases "create_webhook env d w5")
      case (Inl err)
      with None show ?thesis by (simp add: CreateWebhook_def w5_def)
    next
      case (Inr p)
      obtain d' i where p: "p = (d', i)" by (cases p)
      have c: "create_webhook env d w5 = Inr (d', i)" using Inr p by simp
      have r: "\<exists>row. webhooks d' = webhooks d @ [row]
            \<and> WMaxRetries row = (if WMaxRetries w \<le> 0 then 3 else WMaxRetries w)"
        unfolding create_webhook_rows [OF c] using m by simp
      have "snd (CreateWebhook env d w) = d'"
        using None c by (simp add: CreateWebhook_def w5_def)
      with r show ?thesis by simp
    qed
  qed
qed

lemma UpdateWebhook_store:
  assumes "fst (UpdateWebhook env d i w) = Inr out"
    and "r \<in> set (webhooks (snd (UpdateWebhook env d i w)))" and "WID r = i"
  shows "WMaxRetries r = WMaxRetries w"
proof -
  define w1 where "w1 = check_auth_type w"
  have m: "WMaxRetries w1 = WMaxRetries w"
    by (simp add: w1_def check_auth_type_def)
  from assms(1) have n: "check_fields w = None"
    by (cases "check_fields w") (simp_all add: UpdateWebhook_def)
  show ?thesis
  proof (cases "update_webhook env d i w1")
    case (Inl err)
    with assms(1) n show ?thesis by (simp add: UpdateWebhook_def w1_def)
  next
    case (Inr p)
    obtain d' k where p: "p = (d', k)" by (cases p)
    have c: "update_webhook env d i w1 = Inr (d', k)" using Inr p by simp
    have s: "snd (UpdateWebhook env d i w) = d'"
      using n c by (simp add: UpdateWebhook_def w1_def)
    have u: "WMaxRetries (update_row t w1 x) = WMaxRetries w" for t x
      by (simp add: update_row_def m)
    from assms(2) obtain x where x: "x \<in> set (webhooks d)"
        "r = (if WID x = i then update_row (CoreNow env) w1 x else x)"
      unfolding s update_webhook_rows [OF c] by auto
    show ?thesis
    proof (cases "WID x = i")
      case True
      with x(2) show ?thesis by (simp add: u)
    next
      case False
      with x(2) assms(3) show ?thesis by simp
    qed
  qed
qed

text \<open>
  C10. A call of \<open>CreateWebhook\<close> that returns an endpoint has added one row to
  \<open>webhooks\<close>, and that row has \<open>max_retries\<close> 3 whenever the given \<open>MaxRetries\<close> was
  0 or negative (and the given value otherwise); no call of \<open>CreateWebhook\<close> adds a
  row with \<open>max_retries\<close> 0. A call of \<open>UpdateWebhook\<close> that returns an endpoint
  leaves every row with the given id with exactly the given \<open>MaxRetries\<close>, also 0.
\<close>

theorem C10_max_retries_default:
  "(fst (CreateWebhook env d w) = Inr out \<and> WMaxRetries w \<le> 0 \<longrightarrow>
      (\<exists>row. webhooks (snd (CreateWebhook env d w)) = webhooks d @ [row] \<and> WMaxRetries row = 3))
   \<and> (\<forall>r \<in> set (webhooks (snd (CreateWebhook env d w))).
         r \<in> set (webhooks d) \<or> WMaxRetries r \<noteq> 0)
   \<and> (fst (UpdateWebhook env d i w) = Inr out' \<longrightarrow>
        (\<forall>r \<in> set (webhooks (snd (UpdateWebhook env d i w))).
           WID r = i \<longrightarrow> WMaxRetries r = WMaxRetries w))"
proof -
  have a: "\<exists>row. webhooks (snd (CreateWebhook env d w)) = webhooks d @ [row] \<and> WMaxRetries row = 3"
    if "fst (CreateWebhook env d w) = Inr out" "WMaxRetries w \<le> 0"
    using CreateWebhook_store [of env d w] that by auto
  have b: "r \<in> set (webhooks d) \<or> WMaxRetries r \<noteq> 0"
    if "r \<in> set (webhooks (snd (CreateWebhook env d w)))" for r
    using CreateWebhook_store [of env d w] that by (auto split: if_splits)
  have c: "WMaxRetries r = WMaxRetries w"
    if "fst (UpdateWebhook env d i w) = Inr out'"
      "r \<in> set (webhooks (snd (UpdateWebhook env d i w)))" "WID r = i" for r
    using that by (rule UpdateWebhook_store)
  from a b c show ?thesis by blast
qed

lemma ex_core_env_sel:
  "CoreSelectErr ex_core_env = None" "CoreInsertErr ex_core_env = None"
  "CoreUpdateErr ex_core_env = None" "GenUUID ex_core_env = ''u-new''" "CoreNow ex_core_env = 100"
  by (simp_all add: ex_core_env_def)

lemma no_retry_hook_sel:
  "WName no_retry_hook = ''receiver''" "WURL no_retry_hook = ''http://r/ok''"
  "WStatus no_retry_hook = WebhookStatusEnabled" "WEvents no_retry_hook = [''subscriber.created'']"
  "WAuthType no_retry_hook = WebhookAuthTypeHMAC" "WMaxRetries no_retry_hook = 0"
  "WRetryInterval no_retry_hook = ''30s''" "WTimeout no_retry_hook = ''30s''"
  by (simp_all add: no_retry_hook_def ex_webhook_def)

lemma create_example: "\<exists>out. fst (CreateWebhook ex_core_env fanout_db no_retry_hook) = Inr out"
  by (simp add: CreateWebhook_def check_fields_def check_auth_type_def set_defaults_def
        no_retry_hook_sel strHasLen_def AllWebhookEvents_def Let_def create_webhook_def ex_core_env_sel webhook_status_ok_def GetWebhook_def GetWebhooks_def
        get_webhooks_def fanout_db_def ex_webhook_def)

lemma update_example: "\<exists>out. fst (UpdateWebhook ex_core_env fanout_db 2 no_retry_hook) = Inr out"
  by (simp add: UpdateWebhook_def check_fields_def check_auth_type_def
        no_retry_hook_sel strHasLen_def AllWebhookEvents_def Let_def update_webhook_def ex_core_env_sel webhook_status_ok_def GetWebhook_def GetWebhooks_def
        get_webhooks_def fanout_db_def ex_webhook_def update_row_def)

theorem C10_max_retries_default_witness:
  "WMaxRetries no_retry_hook = 0
   \<and> (\<exists>out. fst (CreateWebhook ex_core_env fanout_db no_retry_hook) = Inr out)
   \<and> map WMaxRetries (webhooks (snd (CreateWebhook ex_core_env fanout_db no_retry_hook))) = [3, 3, 3, 3]
   \<and> (\<exists>out. fst (UpdateWebhook ex_core_env fanout_db 2 no_retry_hook) = Inr out)
   \<and> map WMaxRetries (webhooks (snd (UpdateWebhook ex_core_env fanout_db 2 no_retry_hook))) = [3, 0, 3]"
proof -
  from create_example obtain out where c: "fst (CreateWebhook ex_core_env fanout_db no_retry_hook) = Inr out" ..
  from update_example obtain out' where u: "fst (UpdateWebhook ex_core_env fanout_db 2 no_retry_hook) = Inr out'" ..
  note t = C10_max_retries_default [of ex_core_env fanout_db no_retry_hook out 2 out']
  from t c obtain row where r: "webhooks (snd (CreateWebhook ex_core_env fanout_db no_retry_hook))
      = webhooks fanout_db @ [row]" "WMaxRetries row = 3"
    by (auto simp: no_retry_hook_sel)
  have m1: "map WMaxRetries (webhooks (snd (CreateWebhook ex_core_env fanout_db no_retry_hook))) = [3, 3, 3, 3]"
    unfolding r(1) using r(2) by (simp add: fanout_db_def ex_webhook_def)
  have ids: "map WID (webhooks (snd (UpdateWebhook ex_core_env fanout_db 2 no_retry_hook))) = [1, 2, 3]"
    and old: "map WMaxRetries (filter (\<lambda>r. WID r \<noteq> 2)
               (webhooks (snd (UpdateWebhook ex_core_env fanout_db 2 no_retry_hook)))) = [3, 3]"
    by (simp_all add: UpdateWebhook_def check_fields_def check_auth_type_def
        no_retry_hook_sel strHasLen_def AllWebhookEvents_def Let_def update_webhook_def ex_core_env_sel webhook_status_ok_def fanout_db_def ex_webhook_def
        update_row_def)
  from t u have upd: "\<forall>r \<in> set (webhooks (snd (UpdateWebhook ex_core_env fanout_db 2 no_retry_hook))).
           WID r = 2 \<longrightarrow> WMaxRetries r = 0"
    by (simp add: no_retry_hook_sel)
  obtain a b c where l: "webhooks (snd (UpdateWebhook ex_core_env fanout_db 2 no_retry_hook)) = [a, b, c]"
    using ids by (auto simp: map_eq_Cons_conv)
  have m2: "map WMaxRetries (webhooks (snd (UpdateWebhook ex_core_env fanout_db 2 no_retry_hook))) = [3, 0, 3]"
    using ids old upd unfolding l by simp
  from create_example update_example m1 m2 show ?thesis
    by (simp add: no_retry_hook_sel)
qed

section \<open>Shutdown of a worker (C9)\<close>

lemma worker_stop_case:
  "StopClosed ob \<Longrightarrow> \<not> TickReady ob \<or> RuntimeChoice ob = CaseStop \<Longrightarrow>
   worker (ob # obs) d = (d, [Return])"
  by auto

lemma worker_quiet:
  assumes "list_all StopClosed obs"
    and "list_all (\<lambda>ob. \<not> (TickReady ob \<and> RuntimeChoice ob = CaseTick)) obs"
  shows "fst (worker obs d) = d \<and> Fetch \<notin> set (snd (worker obs d))"
proof (cases obs)
  case Nil
  then show ?thesis by simp
next
  case (Cons ob obs')
  have "StopClosed ob" "\<not> TickReady ob \<or> RuntimeChoice ob = CaseStop"
    using assms Cons by (auto intro: select_case.exhaust)
  then have "worker (ob # obs') d = (d, [Return])"
    by (rule worker_stop_case)
  then show ?thesis unfolding Cons by simp
qed

lemma worker_events:
  "\<exists>n. snd (worker obs d) = replicate n Fetch \<or> snd (worker obs d) = replicate n Fetch @ [Return]"
proof (induction obs arbitrary: d)
  case Nil
  show ?case by (rule exI [of _ 0]) simp
next
  case (Cons ob obs)
  consider (stop) "StopClosed ob \<and> (\<not> TickReady ob \<or> RuntimeChoice ob = CaseStop)"
    | (tick) "\<not> (StopClosed ob \<and> (\<not> TickReady ob \<or> RuntimeChoice ob = CaseStop))" "TickReady ob"
    | (blocked) "\<not> (StopClosed ob \<and> (\<not> TickReady ob \<or> RuntimeChoice ob = CaseStop))" "\<not> TickReady ob"
    by blast
  then show ?case
  proof cases
    case stop
    then have "snd (worker (ob # obs) d) = replicate 0 Fetch @ [Return]" by simp
    then show ?thesis by blast
  next
    case tick
    define d' where "d' = fst (processPendingLogs (TickEnv ob) d)"
    from Cons.IH [of d'] obtain n where
      n: "snd (worker obs d') = replicate n Fetch \<or> snd (worker obs d') = replicate n Fetch @ [Return]"
      by blast
    have "snd (worker (ob # obs) d) = Fetch # snd (worker obs d')"
      using tick by (simp add: d'_def Let_def split: prod.splits)
    with n have "snd (worker (ob # obs) d) = replicate (Suc n) Fetch
        \<or> snd (worker (ob # obs) d) = replicate (Suc n) Fetch @ [Return]"
      by auto
    then show ?thesis by blast
  next
    case blocked
    then have "worker (ob # obs) d = worker obs d" by simp
    with Cons.IH [of d] show ?thesis by simp
  qed
qed

text \<open>
  C9 as stated fails: \<open>Close\<close> has closed \<open>stopCh\<close>, a tick is ready in the same pass
  through the \<open>select\<close>, the runtime takes the tick case, and the worker fetches.
\<close>

theorem C9_counterexample:
  "stopCh_closed (Close \<lparr>isRunning = True, stopCh_closed = False\<rparr>) = StopClosed tick_wins
   \<and> StopClosed tick_wins
   \<and> snd (worker [tick_wins] queue_db) = [Fetch]"
  by (simp add: Close_def tick_wins_def split: prod.splits)

text \<open>
  C9, amended. A worker whose \<open>select\<close> takes the stop case returns at once: it
  makes no further fetch and leaves the store as it is, whatever passes would have
  followed; when \<open>stopCh\<close> is closed and no tick is ready, the stop case is the one
  taken. After \<open>Close\<close> a worker fetches only in a pass in which a tick is ready as
  well and the runtime takes the tick case; and a worker never does anything after
  its return.
\<close>

theorem C9_worker_stop:
  "(StopClosed ob \<and> (\<not> TickReady ob \<or> RuntimeChoice ob = CaseStop)
      \<longrightarrow> worker (ob # obs) d = (d, [Return]))
   \<and> (list_all StopClosed obs
        \<and> list_all (\<lambda>ob. \<not> (TickReady ob \<and> RuntimeChoice ob = CaseTick)) obs
      \<longrightarrow> fst (worker obs d) = d \<and> Fetch \<notin> set (snd (worker obs d)))
   \<and> (\<exists>n. snd (worker obs d) = replicate n Fetch
          \<or> snd (worker obs d) = replicate n Fetch @ [Return])"
  using worker_stop_case [of ob obs d] worker_quiet [of obs d] worker_events [of obs d]
  by blast

theorem C9_worker_stop_witness:
  "StopClosed stop_wins \<and> RuntimeChoice stop_wins = CaseStop
   \<and> worker [stop_wins, tick_wins] queue_db = (queue_db, [Return])
   \<and> list_all StopClosed [stop_wins]
   \<and> Fetch \<notin> set (snd (worker [stop_wins] queue_db))"
proof -
  have a: "StopClosed stop_wins" "RuntimeChoice stop_wins = CaseStop" "TickReady stop_wins"
    by (simp_all add: stop_wins_def)
  have l: "list_all StopClosed [stop_wins]"
    "list_all (\<lambda>ob. \<not> (TickReady ob \<and> RuntimeChoice ob = CaseTick)) [stop_wins]"
    using a by simp_all
  from C9_worker_stop [of stop_wins "[tick_wins]" queue_db] a
  have w: "worker [stop_wins, tick_wins] queue_db = (queue_db, [Return])"
    by simp
  from C9_worker_stop [of stop_wins "[stop_wins]" queue_db] l
  have q: "Fetch \<notin> set (snd (worker [stop_wins] queue_db))"
    by blast
  from a l w q show ?thesis by simp
qed

section \<open>The attempts counter under several workers (C7)\<close>

lemma deliverWebhook_attempts:
  "u_attempts (snd (deliverWebhook env l)) = Attempts l + 1"
  by (simp add: deliverWebhook_def Let_def handleDeliveryError_def updateLogFailed_def
        updateLogSuccess_def split: option.splits http_result.splits)

lemma handleDeliveryError_pending:
  "u_status (handleDeliveryError env l c b e) = WebhookLogStatusPending \<Longrightarrow>
   Attempts l + 1 \<le> MaxRetries l"
  by (simp add: handleDeliveryError_def updateLogFailed_def Let_def split: if_splits)

lemma deliverWebhook_pending:
  "u_status (snd (deliverWebhook env l)) = WebhookLogStatusPending \<Longrightarrow>
   Attempts l + 1 \<le> MaxRetries l"
  by (auto simp: deliverWebhook_def Let_def updateLogFailed_def updateLogSuccess_def
           split: option.splits http_result.splits if_splits
           dest: handleDeliveryError_pending)

lemma get_pending_origin:
  assumes "l \<in> set (get_pending_webhook_logs d now limit)"
  shows "\<exists>r \<in> set (webhook_logs d). \<exists>w \<in> set (webhooks d).
           WID w = WebhookID r \<and> l = join_log r w \<and> due now l"
proof -
  from assms have "l \<in> set (sort_key CreatedAt (filter (due now)
       (concat (map (\<lambda>l. map (join_log l) (filter (\<lambda>w. WID w = WebhookID l) (webhooks d)))
                    (webhook_logs d)))))"
    unfolding get_pending_webhook_logs_def by (rule in_set_takeD)
  then show ?thesis by auto
qed

lemma join_log_fields:
  "ID (join_log r w) = ID r" "WebhookID (join_log r w) = WebhookID r"
  "Attempts (join_log r w) = Attempts r" "Status (join_log r w) = Status r"
  "MaxRetries (join_log r w) = WMaxRetries w"
  by (simp_all add: join_log_def)

lemma update_log_rows:
  assumes "r' \<in> set (webhook_logs (exec_update_webhook_log fault d now u))"
  shows "r' \<in> set (webhook_logs d)
       \<or> (fault = None \<and> (\<exists>r \<in> set (webhook_logs d). ID r = u_id u \<and> r' = apply_update now u r))"
  using assms
  by (cases fault) (auto simp: exec_update_webhook_log_def update_webhook_log_def split: if_splits)

lemma apply_update_fields:
  "ID (apply_update now u r) = ID r" "WebhookID (apply_update now u r) = WebhookID r"
  "Attempts (apply_update now u r) = u_attempts u" "Status (apply_update now u r) = u_status u"
  by (simp_all add: apply_update_def)

lemma update_log_ids:
  "map ID (webhook_logs (exec_update_webhook_log fault d now u)) = map ID (webhook_logs d)"
  by (cases fault)
     (simp_all add: exec_update_webhook_log_def update_webhook_log_def apply_update_fields
        cong: map_cong)

lemma update_log_webhooks:
  "webhooks (exec_update_webhook_log fault d now u) = webhooks d"
  by (cases fault) (simp_all add: exec_update_webhook_log_def update_webhook_log_def)

lemma pool_inv_fetch:
  assumes "pool_inv s"
  shows "pool_inv (do_step (StepFetch k now) s)"
proof (cases "Batch s k = []")
  case False
  with assms show ?thesis by simp
next
  case True
  let ?d = "Store s"
  have dw: "distinct (map WID (webhooks ?d))" and dl: "distinct (map ID (webhook_logs ?d))"
    and rows: "\<forall>r \<in> set (webhook_logs ?d). \<forall>w \<in> set (webhooks ?d).
           WID w = WebhookID r \<longrightarrow> row_ok w r"
    and copies: "\<forall>j. \<forall>l \<in> set (Batch s j). copy_ok ?d l"
    using assms by (simp_all add: pool_inv_def)
  have new: "copy_ok ?d l" if "l \<in> set (get_pending_webhook_logs ?d now 100)" for l
  proof -
    from get_pending_origin [OF that] obtain r w where
      r: "r \<in> set (webhook_logs ?d)" and w: "w \<in> set (webhooks ?d)"
      and j: "WID w = WebhookID r" "l = join_log r w" and due: "due now l"
      by blast
    have ok: "row_ok w r" using rows r w j(1) by blast
    have p: "Status r = WebhookLogStatusPending"
      using due unfolding j(2) by (simp add: due_def join_log_fields)
    have a: "0 \<le> Attempts l" "Attempts l \<le> MaxRetries l"
      using ok p unfolding j(2) by (simp_all add: row_ok_def join_log_fields)
    have same: "WMaxRetries w' = MaxRetries l"
      if "r' \<in> set (webhook_logs ?d)" "ID r' = ID l" "w' \<in> set (webhooks ?d)"
         "WID w' = WebhookID r'" for r' w'
    proof -
      have "r' = r"
        using dl that(1,2) r unfolding j(2) join_log_fields
        by (meson distinct_map inj_onD)
      then have "WID w' = WID w" using that(4) j(1) by simp
      then have "w' = w"
        using dw that(3) w by (meson distinct_map inj_onD)
      then show ?thesis unfolding j(2) by (simp add: join_log_fields)
    qed
    from a same show ?thesis unfolding copy_ok_def by blast
  qed
  have st: "Store (do_step (StepFetch k now) s) = ?d"
    and ba: "Batch (do_step (StepFetch k now) s) j
               = (if j = k then get_pending_webhook_logs ?d now 100 else Batch s j)" for j
    using True by simp_all
  show ?thesis
    unfolding pool_inv_def st ba using dw dl rows copies new by auto
qed

lemma pool_inv_deliver:
  assumes "pool_inv s"
  shows "pool_inv (do_step (StepDeliver k env fault now) s)"
proof (cases "Batch s k")
  case Nil
  with assms show ?thesis by simp
next
  case (Cons l ls)
  let ?d = "Store s"
  let ?u = "snd (deliverWebhook env l)"
  let ?d' = "exec_update_webhook_log fault ?d now ?u"
  have dw: "distinct (map WID (webhooks ?d))" and dl: "distinct (map ID (webhook_logs ?d))"
    and rows: "\<forall>r \<in> set (webhook_logs ?d). \<forall>w \<in> set (webhooks ?d).
           WID w = WebhookID r \<longrightarrow> row_ok w r"
    and copies: "\<forall>j. \<forall>l \<in> set (Batch s j). copy_ok ?d l"
    using assms by (simp_all add: pool_inv_def)
  have l: "copy_ok ?d l" using copies Cons by (metis list.set_intros(1))
  have st: "Store (do_step (StepDeliver k env fault now) s) = ?d'"
    and ba: "Batch (do_step (StepDeliver k env fault now) s) j
               = (if j = k then ls else Batch s j)" for j
    using Cons by simp_all
  have origin: "\<exists>r \<in> set (webhook_logs ?d). ID r = ID r' \<and> WebhookID r = WebhookID r'"
    if "r' \<in> set (webhook_logs ?d')" for r'
    using update_log_rows [OF that] by (auto simp: apply_update_fields)
  have rows': "row_ok w r'"
    if r': "r' \<in> set (webhook_logs ?d')" and w: "w \<in> set (webhooks ?d)" "WID w = WebhookID r'"
    for r' w
  proof -
    from update_log_rows [OF r']
    consider (old) "r' \<in> set (webhook_logs ?d)"
      | (new) r where "r \<in> set (webhook_logs ?d)" "ID r = u_id ?u" "r' = apply_update now ?u r"
      by blast
    then show ?thesis
    proof cases
      case old
      with rows w show ?thesis by blast
    next
      case new
      have "ID r = ID l" using new(2) by (simp add: u_id_deliverWebhook)
      moreover have "WID w = WebhookID r" using w(2) new(3) by (simp add: apply_update_fields)
      ultimately have m: "WMaxRetries w = MaxRetries l"
        using l new(1) w(1) unfolding copy_ok_def by blast
      have a: "0 \<le> Attempts l" "Attempts l \<le> MaxRetries l"
        using l by (simp_all add: copy_ok_def)
      have p: "Attempts l + 1 \<le> MaxRetries l" if "u_status ?u = WebhookLogStatusPending"
        using that by (rule deliverWebhook_pending)
      show ?thesis
        unfolding row_ok_def new(3) apply_update_fields deliverWebhook_attempts m
        using a p by auto
    qed
  qed
  have copies': "copy_ok ?d' c" if "copy_ok ?d c" for c
  proof -
    have "WMaxRetries w = MaxRetries c"
      if "r' \<in> set (webhook_logs ?d')" "ID r' = ID c" "w \<in> set (webhooks ?d)"
         "WID w = WebhookID r'" for r' w
    proof -
      from origin [OF that(1)] obtain r where
        "r \<in> set (webhook_logs ?d)" "ID r = ID r'" "WebhookID r = WebhookID r'" by blast
      with \<open>copy_ok ?d c\<close> that(2,3,4) show ?thesis unfolding copy_ok_def by metis
    qed
    with that show ?thesis unfolding copy_ok_def update_log_webhooks by blast
  qed
  have batch': "copy_ok ?d' c" if "c \<in> set (if j = k then ls else Batch s j)" for j c
  proof -
    have "c \<in> set (Batch s j)" using that Cons by (auto split: if_splits)
    with copies have "copy_ok ?d c" by blast
    then show ?thesis by (rule copies')
  qed
  show ?thesis
    unfolding pool_inv_def st ba update_log_webhooks update_log_ids
    using dw dl rows' batch' by blast
qed

lemma pool_inv_step: "pool_inv s \<Longrightarrow> pool_inv (do_step st s)"
  by (cases st) (simp_all only: pool_inv_fetch pool_inv_deliver)

lemma pool_inv_run: "pool_inv s \<Longrightarrow> pool_inv (pool_run sts s)"
  by (induction sts arbitrary: s) (simp_all add: pool_inv_step)

lemma pool_inv_idle:
  assumes "fresh_store d"
  shows "pool_inv (idle_pool d)"
proof -
  have "row_ok w r" if "r \<in> set (webhook_logs d)" "w \<in> set (webhooks d)" for r w
    using assms that by (auto simp: fresh_store_def row_ok_def list_all_iff)
  then show ?thesis
    using assms by (simp add: pool_inv_def idle_pool_def fresh_store_def)
qed

lemma pool_run_webhooks: "webhooks (Store (pool_run sts s)) = webhooks (Store s)"
proof (induction sts arbitrary: s)
  case Nil
  show ?case by simp
next
  case (Cons st sts)
  have "webhooks (Store (do_step st s)) = webhooks (Store s)"
    by (cases st) (simp_all add: update_log_webhooks split: list.splits)
  with Cons.IH [of "do_step st s"] show ?case by simp
qed

lemma attempts_after_update:
  assumes "u_id u \<in> ID ` set (webhook_logs d)"
  shows "attempts_of (exec_update_webhook_log None d now u) (u_id u) = u_attempts u"
proof -
  have f: "filter (\<lambda>r. ID r = u_id u)
             (map (\<lambda>r. if ID r = u_id u then apply_update now u r else r) (webhook_logs d))
           = map (apply_update now u) (filter (\<lambda>r. ID r = u_id u) (webhook_logs d))"
    by (induction "webhook_logs d" arbitrary: d) (auto simp: apply_update_fields filter_map o_def
          intro!: arg_cong) 
  from assms have "filter (\<lambda>r. ID r = u_id u) (webhook_logs d) \<noteq> []"
    by (auto simp: filter_empty_conv)
  then obtain r rs where "filter (\<lambda>r. ID r = u_id u) (webhook_logs d) = r # rs"
    by (cases "filter (\<lambda>r. ID r = u_id u) (webhook_logs d)") auto
  then show ?thesis
    by (simp add: attempts_of_def exec_update_webhook_log_def update_webhook_log_def f
          apply_update_fields)
qed

lemma pool_run_ids:
  "map ID (webhook_logs (Store (pool_run sts s))) = map ID (webhook_logs (Store s))"
proof (induction sts arbitrary: s)
  case Nil
  show ?case by simp
next
  case (Cons st sts)
  have "map ID (webhook_logs (Store (do_step st s))) = map ID (webhook_logs (Store s))"
    by (cases st) (simp_all add: update_log_ids split: list.splits)
  with Cons.IH [of "do_step st s"] show ?case by simp
qed

lemma update_log_webhook_ids:
  "map WebhookID (webhook_logs (exec_update_webhook_log fault d now u)) = map WebhookID (webhook_logs d)"
  by (cases fault)
     (simp_all add: exec_update_webhook_log_def update_webhook_log_def apply_update_fields
        cong: map_cong)

lemma pool_run_webhook_ids:
  "map WebhookID (webhook_logs (Store (pool_run sts s))) = map WebhookID (webhook_logs (Store s))"
proof (induction sts arbitrary: s)
  case Nil
  show ?case by simp
next
  case (Cons st sts)
  have "map WebhookID (webhook_logs (Store (do_step st s))) = map WebhookID (webhook_logs (Store s))"
    by (cases st) (simp_all add: update_log_webhook_ids split: list.splits)
  with Cons.IH [of "do_step st s"] show ?case by simp
qed

lemma deliver_step_attempts:
  assumes "Batch s k = l # ls" and "ID l \<in> ID ` set (webhook_logs (Store s))"
  shows "attempts_of (Store (do_step (StepDeliver k env None now) s)) (ID l) = Attempts l + 1"
proof -
  let ?u = "snd (deliverWebhook env l)"
  have "u_id ?u \<in> ID ` set (webhook_logs (Store s))"
    using assms(2) by (simp add: u_id_deliverWebhook)
  from attempts_after_update [OF this, of now]
  show ?thesis
    using assms(1) by (simp add: u_id_deliverWebhook deliverWebhook_attempts)
qed

text \<open>
  C7, amended. Over a store whose rows start pending at attempts 0 and whose
  endpoints have \<open>max_retries\<close> of at least 0, under every interleaving of the
  workers' fetches and deliveries: every stored row, so every terminal one, has
  attempts between 0 and \<open>max_retries + 1\<close>; every update writes the attempts of the
  copy the worker fetched plus one; so an update computed from a copy whose attempts
  are still those stored increases the stored value by exactly one.
\<close>

theorem C7_attempts:
  assumes "fresh_store d"
  shows "(\<forall>r \<in> set (webhook_logs (Store (pool_run sts (idle_pool d)))).
            \<forall>w \<in> set (webhooks d). WID w = WebhookID r \<longrightarrow>
              0 \<le> Attempts r \<and> Attempts r \<le> WMaxRetries w + 1)
       \<and> u_attempts (snd (deliverWebhook env l)) = Attempts l + 1
       \<and> (Batch s k = l # ls \<and> ID l \<in> ID ` set (webhook_logs (Store s)) \<longrightarrow>
            attempts_of (Store (do_step (StepDeliver k env None now) s)) (ID l) = Attempts l + 1)
       \<and> (Batch s k = l # ls \<and> ID l \<in> ID ` set (webhook_logs (Store s))
            \<and> Attempts l = attempts_of (Store s) (ID l) \<longrightarrow>
            attempts_of (Store (do_step (StepDeliver k env None now) s)) (ID l)
              = attempts_of (Store s) (ID l) + 1)"
proof -
  let ?s = "pool_run sts (idle_pool d)"
  have "pool_inv ?s"
    using assms by (intro pool_inv_run pool_inv_idle)
  then have rows: "\<forall>r \<in> set (webhook_logs (Store ?s)). \<forall>w \<in> set (webhooks (Store ?s)).
           WID w = WebhookID r \<longrightarrow> row_ok w r"
    by (simp add: pool_inv_def)
  have w: "webhooks (Store ?s) = webhooks d"
    by (simp add: pool_run_webhooks idle_pool_def)
  have bound: "\<forall>r \<in> set (webhook_logs (Store ?s)).
            \<forall>w \<in> set (webhooks d). WID w = WebhookID r \<longrightarrow>
              0 \<le> Attempts r \<and> Attempts r \<le> WMaxRetries w + 1"
    using rows unfolding w row_ok_def by blast
  from bound deliverWebhook_attempts [of env l] deliver_step_attempts [of s k l ls env now]
  show ?thesis by simp
qed

lemma ex_db_sel: "webhooks ex_db = [ex_webhook]" "webhook_logs ex_db = [ex_row]"
  by (simp_all add: ex_db_def)

lemma ex_db_fresh: "fresh_store ex_db"
  by (simp add: fresh_store_def ex_db_sel ex_webhook_def ex_row_def)

lemma ex_db_pending: "get_pending_webhook_logs ex_db now 100 = [ex_log]"
  by (simp add: get_pending_webhook_logs_def ex_db_sel ex_log_def due_def join_log_def
        ex_webhook_def ex_row_def)

lemma ex_deliver_500:
  "snd (deliverWebhook (ex_env 500) ex_log) =
     \<lparr>u_id = 7, u_status = WebhookLogStatusPending, u_response_code = 500,
      u_response_body = '''', u_error = ''non-2xx status: 500'', u_attempts = 1,
      u_next_retry_at = Some 1700000061000000000\<rparr>"
proof -
  have a: "NewRequestErr (ex_env 500) (URL ex_log) = None"
    by (simp add: ex_env_sel ex_log_sel)
  have b: "ClientDo (ex_env 500) (request_timeout (ex_env 500) ex_log)
             (buildRequest (ex_env 500) ex_log) = Response 500 ''''"
    by (simp add: ex_env_sel)
  have d: "decimal 500 = ''500''"
    by (simp add: decimal_def digit_char_def nat_decimal.simps)
  have r: "Attempts ex_log + 1 \<le> MaxRetries ex_log"
    by (simp add: ex_log_sel)
  show ?thesis
    unfolding deliverWebhook_response [OF a b] handleDeliveryError_retry [OF r]
    by (simp add: ex_log_sel ex_env_sel backoff_default_waits d)
qed

lemma both_fetch_run:
  "Store (pool_run both_fetch (idle_pool ex_db))
     = update_webhook_log ex_db 20 (snd (deliverWebhook (ex_env 500) ex_log))"
  "Batch (pool_run both_fetch (idle_pool ex_db)) 1 = [ex_log]"
  by (simp_all add: both_fetch_def idle_pool_def ex_db_pending exec_update_webhook_log_def)

lemma overtaken_run:
  "Batch (pool_run overtaken (idle_pool ex_db)) 0 = [ex_log]"
  "attempts_of (Store (pool_run overtaken (idle_pool ex_db))) 7 = 2"
proof -
  let ?s3 = "pool_run [StepFetch 0 10, StepFetch 1 10, StepDeliver 1 (ex_env 500) None 20]
               (idle_pool ex_db)"
  let ?row1 = "apply_update 20 (snd (deliverWebhook (ex_env 500) ex_log)) ex_row"
  have s3: "Store ?s3 = ex_db\<lparr>webhook_logs := [?row1]\<rparr>"
    "Batch ?s3 0 = [ex_log]" "Batch ?s3 1 = []"
    by (simp_all add: idle_pool_def ex_db_pending exec_update_webhook_log_def
          update_webhook_log_def ex_db_sel u_id_deliverWebhook ex_log_sel ex_row_def)
  have q: "get_pending_webhook_logs (ex_db\<lparr>webhook_logs := [?row1]\<rparr>) 1700000100000000000 100
             = [join_log ?row1 ex_webhook]"
    unfolding ex_deliver_500
    by (simp add: get_pending_webhook_logs_def ex_db_sel due_def join_log_def apply_update_def
          ex_webhook_def ex_row_def)
  let ?s4 = "do_step (StepFetch 1 1700000100000000000) ?s3"
  have s4: "Store ?s4 = ex_db\<lparr>webhook_logs := [?row1]\<rparr>"
    "Batch ?s4 0 = [ex_log]" "Batch ?s4 1 = [join_log ?row1 ex_webhook]"
    using s3 q by simp_all
  have run: "pool_run overtaken (idle_pool ex_db)
               = do_step (StepDeliver 1 (ex_env 500) None 1700000100000000001) ?s4"
    by (simp add: overtaken_def)
  have i: "ID (join_log ?row1 ex_webhook) \<in> ID ` set (webhook_logs (Store ?s4))"
    unfolding s4 by (simp add: join_log_fields)
  from deliver_step_attempts [OF s4(3) i, of "ex_env 500" 1700000100000000001]
  show "attempts_of (Store (pool_run overtaken (idle_pool ex_db))) 7 = 2"
    unfolding run by (simp add: join_log_fields apply_update_fields ex_deliver_500 ex_row_def)
  show "Batch (pool_run overtaken (idle_pool ex_db)) 0 = [ex_log]"
    unfolding run using s4(2,3) by simp
qed

text \<open>
  C7 as stated fails. Two workers fetch the same pending row on the same tick; both
  deliveries fail with status 500. The first update takes attempts from 0 to 1; the
  second, computed from the same fetched copy, writes 1 again: it is applied (the
  row's update time moves to 21) and does not increase attempts. And when worker 1
  has meanwhile delivered the row twice (attempts 2), the late update of worker 0
  from its old copy takes attempts back to 1.
\<close>

theorem C7_counterexample:
  "fresh_store ex_db
   \<and> attempts_of (Store (pool_run both_fetch (idle_pool ex_db))) 7 = 1
   \<and> Batch (pool_run both_fetch (idle_pool ex_db)) 1 = [ex_log]
   \<and> attempts_of (Store (do_step second_delivery (pool_run both_fetch (idle_pool ex_db)))) 7 = 1
   \<and> map UpdatedAt (webhook_logs (Store (do_step second_delivery
                                            (pool_run both_fetch (idle_pool ex_db))))) = [21]
   \<and> attempts_of (Store (pool_run overtaken (idle_pool ex_db))) 7 = 2
   \<and> attempts_of (Store (do_step late_delivery (pool_run overtaken (idle_pool ex_db)))) 7 = 1"
proof -
  have a1: "attempts_of (Store (pool_run both_fetch (idle_pool ex_db))) 7 = 1"
    unfolding both_fetch_run ex_deliver_500
    by (simp add: attempts_of_def update_webhook_log_def ex_db_sel apply_update_def ex_row_def)
  have st: "Store (do_step second_delivery (pool_run both_fetch (idle_pool ex_db)))
              = update_webhook_log (Store (pool_run both_fetch (idle_pool ex_db))) 21
                  (snd (deliverWebhook (ex_env 500) ex_log))"
    using both_fetch_run(2) by (simp add: second_delivery_def exec_update_webhook_log_def)
  have a2: "attempts_of (Store (do_step second_delivery (pool_run both_fetch (idle_pool ex_db)))) 7 = 1"
    "map UpdatedAt (webhook_logs (Store (do_step second_delivery
                                            (pool_run both_fetch (idle_pool ex_db))))) = [21]"
    unfolding st both_fetch_run(1) ex_deliver_500
    by (simp_all add: attempts_of_def update_webhook_log_def ex_db_sel apply_update_def ex_row_def)
  have i: "ID ex_log \<in> ID ` set (webhook_logs (Store (pool_run overtaken (idle_pool ex_db))))"
  proof -
    have "map ID (webhook_logs (Store (pool_run overtaken (idle_pool ex_db)))) = [7]"
      unfolding pool_run_ids by (simp add: idle_pool_def ex_db_sel ex_row_def)
    then have "set (map ID (webhook_logs (Store (pool_run overtaken (idle_pool ex_db))))) = {7}"
      by simp
    then show ?thesis by (simp add: ex_log_sel)
  qed
  from deliver_step_attempts [OF overtaken_run(1) i, of "ex_env 500" 1700000100000000002]
  have a3: "attempts_of (Store (do_step late_delivery (pool_run overtaken (idle_pool ex_db)))) 7 = 1"
    by (simp add: late_delivery_def ex_log_sel)
  from ex_db_fresh a1 both_fetch_run(2) a2 overtaken_run(2) a3 show ?thesis by simp
qed

theorem C7_attempts_witness:
  "fresh_store ex_db
   \<and> Batch (pool_run both_fetch (idle_pool ex_db)) 1 = [ex_log]
   \<and> Attempts ex_log = 0
   \<and> attempts_of (Store (do_step (StepDeliver 1 (ex_env 500) None 21)
                            (pool_run both_fetch (idle_pool ex_db)))) 7 = 1
   \<and> list_all (\<lambda>r. 0 \<le> Attempts r \<and> Attempts r \<le> 4)
        (webhook_logs (Store (pool_run overtaken (idle_pool ex_db))))"
proof -
  have i: "ID ex_log \<in> ID ` set (webhook_logs (Store (pool_run both_fetch (idle_pool ex_db))))"
  proof -
    have "map ID (webhook_logs (Store (pool_run both_fetch (idle_pool ex_db)))) = [7]"
      unfolding pool_run_ids by (simp add: idle_pool_def ex_db_sel ex_row_def)
    then have "set (map ID (webhook_logs (Store (pool_run both_fetch (idle_pool ex_db))))) = {7}"
      by simp
    then show ?thesis by (simp add: ex_log_sel)
  qed
  note t = C7_attempts [OF ex_db_fresh, of overtaken "ex_env 500" ex_log
                          "pool_run both_fetch (idle_pool ex_db)" 1 "[]" 21]
  from t both_fetch_run(2) i
  have a: "attempts_of (Store (do_step (StepDeliver 1 (ex_env 500) None 21)
                            (pool_run both_fetch (idle_pool ex_db)))) 7 = 1"
    by (simp add: ex_log_sel)
  have "map WebhookID (webhook_logs (Store (pool_run overtaken (idle_pool ex_db)))) = [1]"
    unfolding pool_run_webhook_ids by (simp add: idle_pool_def ex_db_sel ex_row_def)
  then have "set (map WebhookID (webhook_logs (Store (pool_run overtaken (idle_pool ex_db))))) = {1}"
    by simp
  then have wid: "\<forall>r \<in> set (webhook_logs (Store (pool_run overtaken (idle_pool ex_db)))). WebhookID r = 1"
    by auto
  from t wid
  have b: "list_all (\<lambda>r. 0 \<le> Attempts r \<and> Attempts r \<le> 4)
        (webhook_logs (Store (pool_run overtaken (idle_pool ex_db))))"
    by (auto simp: list_all_iff ex_db_sel ex_webhook_def)
  from ex_db_fresh both_fetch_run(2) a b show ?thesis by (simp add: ex_log_sel)
qed

end
